theory Spec2Isabelle
  imports Complex_Main "HOL-Library.Char_ord" "HOL-Library.List_Lexorder"
begin

section \<open>Decoded documents, errors and results\<close>

text \<open>
  The input of \<open>validate_arazzo_data\<close> is the tree a YAML or JSON decoder produced:
  null, booleans, numbers, strings, lists and mappings with string keys. A mapping keeps its
  keys in document order (a Python \<open>dict\<close>); a key is looked up with \<open>map_of\<close>. Strings are
  their UTF-8 bytes. A float is one that has a value (no NaN, no infinity) and is kept as
  that value.
\<close>

datatype json =
    JNull
  | JBool bool
  | JInt int
  | JFloat rat
  | JStr string
  | JList "json list"
  | JObj "(string \<times> json) list"

text \<open>
  An error record of a \<open>ValidationError\<close>: its kind (with the context the source passes to
  \<open>PydanticCustomError\<close>, or the message of a \<open>ValueError\<close>) and its location, a path of
  mapping keys, list indices and, below a union, the label of the member that was tried.
\<close>

datatype loc_item = Key string | Idx nat | Member string

datatype value_error_msg =
    Unique_items string "string list"
  | Unique_ids string "string list"
  | Url_whitespace

datatype err_type =
    Missing
  | Model_type
  | String_type
  | List_type
  | Dict_type
  | Enum_type
  | Float_type
  | Int_type
  | Too_short
  | String_pattern_mismatch
  | Greater_than_equal
  | Value_error value_error_msg
  | Invalid_jsonpath_version string
  | Invalid_xpath_version string
  | Missing_context_for_expression_type string
  | Goto_missing_target string
  | Goto_exclusive_target string
  | Goto_retry_missing_target string
  | Goto_retry_exclusive_target string
  | Retry_missing_retry_after string
  | Step_missing_target_type
  | Step_exclusive_target_type
  | Parameter_in_required_for_operation nat
  | Invalid_parameter_type_for_operation nat
  | Invalid_parameter_type_for_workflow nat

datatype verr = VErr (etype: err_type) (eloc: "loc_item list")

datatype exn = TypeError string

text \<open>
  A validator returns its value, or raises a \<open>ValidationError\<close> with the errors collected
  so far, or lets another exception escape. The library turns a \<open>ValueError\<close> and a
  \<open>PydanticCustomError\<close> of a validator function into an error record; any other exception
  of a validator function ends the whole validation at once.
\<close>

datatype 'a res = Ok 'a | Invalid "verr list" | Raised exn

definition fail :: "err_type \<Rightarrow> 'a res" where
  "fail t = Invalid [VErr t []]"

definition outer :: "loc_item \<Rightarrow> verr \<Rightarrow> verr" where
  "outer l e = VErr (etype e) (l # eloc e)"

fun at_loc :: "loc_item \<Rightarrow> 'a res \<Rightarrow> 'a res" where
  "at_loc l (Ok x) = Ok x"
| "at_loc l (Invalid es) = Invalid (map (outer l) es)"
| "at_loc l (Raised e) = Raised e"

text \<open>
  Two parts of one node validated in order: the errors of both are collected, an escaping
  exception of the first is all that happens, one of the second discards the errors of
  the first.
\<close>

fun ap :: "('a \<Rightarrow> 'b) res \<Rightarrow> 'a res \<Rightarrow> 'b res" where
  "ap (Raised e) r = Raised e"
| "ap (Ok f) (Ok x) = Ok (f x)"
| "ap (Ok f) (Invalid es) = Invalid es"
| "ap (Ok f) (Raised e) = Raised e"
| "ap (Invalid es) (Ok x) = Invalid es"
| "ap (Invalid es) (Invalid es') = Invalid (es @ es')"
| "ap (Invalid es) (Raised e) = Raised e"

text \<open>A validator function that runs after the inner validation has succeeded.\<close>

fun and_then :: "'a res \<Rightarrow> ('a \<Rightarrow> 'b res) \<Rightarrow> 'b res" where
  "and_then (Ok x) f = f x"
| "and_then (Invalid es) f = Invalid es"
| "and_then (Raised e) f = Raised e"

section \<open>What the library decides\<close>

text \<open>
  Four behaviours of the validation library and of the Python runtime are taken as
  parameters, so that every theorem holds whatever they are:
  the lax conversion to \<open>float\<close> and to \<open>int\<close> of an input that is not a number of that
  kind (a numeric string, a boolean, a float with no fraction);
  which member a smart-mode \<open>Union\<close> returns for an input that both members accept;
  and the order in which a \<open>set\<close> of strings is iterated.
\<close>

record env =
  lax_float :: "json \<Rightarrow> rat option"
  lax_int :: "json \<Rightarrow> int option"
  smart_first :: "json \<Rightarrow> bool"
  set_order :: "string list \<Rightarrow> string list"

section \<open>Validators of the field types\<close>

fun str_v :: "json \<Rightarrow> string res" where
  "str_v (JStr s) = Ok s"
| "str_v j = fail String_type"

definition any_v :: "json \<Rightarrow> json res" where
  "any_v j = Ok j"

fun enum_v :: "(string \<Rightarrow> 'a option) \<Rightarrow> json \<Rightarrow> 'a res" where
  "enum_v members (JStr s) = (case members s of Some m \<Rightarrow> Ok m | None \<Rightarrow> fail Enum_type)"
| "enum_v members j = fail Enum_type"

fun float_v :: "env \<Rightarrow> json \<Rightarrow> rat res" where
  "float_v env (JFloat r) = Ok r"
| "float_v env (JInt i) = Ok (of_int i)"
| "float_v env j = (case lax_float env j of Some r \<Rightarrow> Ok r | None \<Rightarrow> fail Float_type)"

fun int_v :: "env \<Rightarrow> json \<Rightarrow> int res" where
  "int_v env (JInt i) = Ok i"
| "int_v env j = (case lax_int env j of Some i \<Rightarrow> Ok i | None \<Rightarrow> fail Int_type)"

text \<open>The constraint \<open>ge=0\<close> of a numeric field.\<close>

definition ge0 :: "'a::{zero,ord} \<Rightarrow> 'a res" where
  "ge0 x = (if 0 \<le> x then Ok x else fail Greater_than_equal)"

text \<open>\<open>Optional[T]\<close>: null is \<open>None\<close>, anything else is validated as a \<open>T\<close>.\<close>

fun nullable :: "(json \<Rightarrow> 'a res) \<Rightarrow> json \<Rightarrow> 'a option res" where
  "nullable P JNull = Ok None"
| "nullable P j = ap (Ok Some) (P j)"

text \<open>
  \<open>List[T]\<close> with \<open>min_length\<close>: every item is validated and the errors of all of them are
  collected, each under its index; the length is checked once every item is valid.
\<close>

fun list_items :: "(json \<Rightarrow> 'a res) \<Rightarrow> nat \<Rightarrow> json list \<Rightarrow> 'a list res" where
  "list_items P i [] = Ok []"
| "list_items P i (j # js) = ap (ap (Ok Cons) (at_loc (Idx i) (P j))) (list_items P (Suc i) js)"

definition min_length :: "nat \<Rightarrow> 'a list \<Rightarrow> 'a list res" where
  "min_length n xs = (if length xs < n then fail Too_short else Ok xs)"

fun list_v :: "(json \<Rightarrow> 'a res) \<Rightarrow> nat \<Rightarrow> json \<Rightarrow> 'a list res" where
  "list_v P n (JList js) = and_then (list_items P 0 js) (min_length n)"
| "list_v P n j = fail List_type"

text \<open>\<open>Dict[str, T]\<close>: every value is validated, its errors under its key.\<close>

fun dict_items :: "(json \<Rightarrow> 'a res) \<Rightarrow> (string \<times> json) list \<Rightarrow> (string \<times> 'a) list res" where
  "dict_items P [] = Ok []"
| "dict_items P ((k, j) # kvs) =
     ap (ap (Ok Cons) (at_loc (Key k) (ap (Ok (Pair k)) (P j)))) (dict_items P kvs)"

fun dict_v :: "(json \<Rightarrow> 'a res) \<Rightarrow> json \<Rightarrow> (string \<times> 'a) list res" where
  "dict_v P (JObj kvs) = dict_items P kvs"
| "dict_v P j = fail Dict_type"

text \<open>
  A smart-mode \<open>Union[A, B]\<close> of two models: both members are tried, in order. The input of
  one member only is that member's; an input of both is the one the library prefers; an
  input of neither has the errors of both, each under the member's label.
\<close>

definition union_v ::
  "env \<Rightarrow> string \<Rightarrow> (json \<Rightarrow> 'a res) \<Rightarrow> string \<Rightarrow> (json \<Rightarrow> 'b res) \<Rightarrow> json \<Rightarrow> ('a + 'b) res" where
  "union_v env la A lb B j =
     (case A j of
        Raised e \<Rightarrow> Raised e
      | Ok a \<Rightarrow>
          (case B j of
             Raised e \<Rightarrow> Raised e
           | Ok b \<Rightarrow> if smart_first env j then Ok (Inl a) else Ok (Inr b)
           | Invalid eb \<Rightarrow> Ok (Inl a))
      | Invalid ea \<Rightarrow>
          (case B j of
             Raised e \<Rightarrow> Raised e
           | Ok b \<Rightarrow> Ok (Inr b)
           | Invalid eb \<Rightarrow> Invalid (map (outer (Member la)) ea @ map (outer (Member lb)) eb)))"

subsection \<open>The fields of a model\<close>

text \<open>
  \<open>SpecificationExtensionsMixin\<close>: a field is read under its alias (the camel-case name
  that \<open>to_camel\<close> gives, or the alias of the field declaration) and, as
  \<open>populate_by_name\<close> is set, under its own name when the alias is not a key. A field that
  is absent takes its default, or is an error of kind \<open>missing\<close> at the alias. Every key
  that no field has read is kept (\<open>extra='allow'\<close>).
\<close>

definition lookup_field :: "string \<Rightarrow> string \<Rightarrow> (string \<times> json) list \<Rightarrow> (string \<times> json) option" where
  "lookup_field alias fname kvs =
     (case map_of kvs alias of
        Some v \<Rightarrow> Some (alias, v)
      | None \<Rightarrow> (case map_of kvs fname of Some v \<Rightarrow> Some (fname, v) | None \<Rightarrow> None))"

definition required :: "string \<Rightarrow> string \<Rightarrow> (json \<Rightarrow> 'a res) \<Rightarrow> (string \<times> json) list \<Rightarrow> 'a res" where
  "required alias fname P kvs =
     (case lookup_field alias fname kvs of
        None \<Rightarrow> Invalid [VErr Missing [Key alias]]
      | Some (k, v) \<Rightarrow> at_loc (Key k) (P v))"

definition optional ::
  "string \<Rightarrow> string \<Rightarrow> (json \<Rightarrow> 'a res) \<Rightarrow> 'a \<Rightarrow> (string \<times> json) list \<Rightarrow> 'a res" where
  "optional alias fname P dflt kvs =
     (case lookup_field alias fname kvs of
        None \<Rightarrow> Ok dflt
      | Some (k, v) \<Rightarrow> at_loc (Key k) (P v))"

definition used_keys :: "(string \<times> string) list \<Rightarrow> (string \<times> json) list \<Rightarrow> string list" where
  "used_keys flds kvs =
     List.map_filter (\<lambda>(alias, fname). map_option fst (lookup_field alias fname kvs)) flds"

definition model_extra :: "(string \<times> string) list \<Rightarrow> (string \<times> json) list \<Rightarrow> (string \<times> json) list" where
  "model_extra flds kvs = filter (\<lambda>(k, v). k \<notin> set (used_keys flds kvs)) kvs"

section \<open>Uniqueness of list items\<close>

text \<open>
  The loop of \<open>validate_unique_items\<close> (and of the three validators that compare by an
  identifier): \<open>seen\<close> is the set of the items met, the result is \<open>duplicates_found\<close>.
\<close>

fun collect_duplicates :: "'a set \<Rightarrow> 'a list \<Rightarrow> 'a list" where
  "collect_duplicates seen [] = []"
| "collect_duplicates seen (x # xs) =
     (if x \<in> seen then x # collect_duplicates seen xs
      else collect_duplicates (insert x seen) xs)"

text \<open>
  \<open>validate_unique_items\<close>. The key of an item that is a model is its
  \<open>model_dump_json()\<close>, which is a function of the typed value: here the value itself.
  When there are duplicates, the source builds \<open>set(duplicates_found)\<close>, which hashes the
  items themselves: \<open>str_of\<close> is \<open>Some (str(d))\<close> for an item that can be hashed (a
  string) and \<open>None\<close> for a model, whose class defines equality and no hash, so that
  \<open>set\<close> raises a \<open>TypeError\<close> there.
\<close>

definition validate_unique_items :: "('a \<Rightarrow> string option) \<Rightarrow> 'a list \<Rightarrow> string \<Rightarrow> 'a list res" where
  "validate_unique_items str_of v field_name =
     (let duplicates_found = collect_duplicates {} v in
      if duplicates_found \<noteq> [] then
        (case those (map str_of (remdups duplicates_found)) of
           None \<Rightarrow> Raised (TypeError ''unhashable type'')
         | Some reprs \<Rightarrow> fail (Value_error (Unique_items field_name (sort reprs))))
      else Ok v)"

text \<open>
  The field validators of the value-keyed lists (\<open>validate_replacements_uniqueness\<close>,
  \<open>validate_criteria_uniqueness\<close>, \<open>validate_parameters_uniqueness\<close>,
  \<open>validate_success_criteria_uniqueness\<close>, \<open>validate_on_success_uniqueness\<close>,
  \<open>validate_on_failure_uniqueness\<close>, \<open>validate_success_actions_uniqueness\<close>,
  \<open>validate_failure_actions_uniqueness\<close>, \<open>validate_workflow_parameters_uniqueness\<close> on
  lists of models, \<open>validate_depends_on_uniqueness\<close> on a list of strings) are all
  \<^verbatim>\<open>if v is not None: validate_unique_items(v, name)\<close> followed by \<^verbatim>\<open>return v\<close>.
\<close>

definition unique_models :: "string \<Rightarrow> 'a list option \<Rightarrow> 'a list option res" where
  "unique_models field_name v =
     (case v of
        None \<Rightarrow> Ok v
      | Some xs \<Rightarrow> and_then (validate_unique_items (\<lambda>d. None) xs field_name) (\<lambda>u. Ok v))"

definition unique_strs :: "string \<Rightarrow> string list option \<Rightarrow> string list option res" where
  "unique_strs field_name v =
     (case v of
        None \<Rightarrow> Ok v
      | Some xs \<Rightarrow> and_then (validate_unique_items Some xs field_name) (\<lambda>u. Ok v))"

text \<open>
  The three validators that compare by an identifier share one shape:
  \<open>len(ids) != len(set(ids))\<close>, then the same loop, then \<open>list(set(duplicate_ids))\<close>
  in the message, in the order the set is iterated.
\<close>

definition unique_ids :: "env \<Rightarrow> string \<Rightarrow> ('a \<Rightarrow> string) \<Rightarrow> 'a list \<Rightarrow> 'a list res" where
  "unique_ids env field_name ident v =
     (let ids = map ident v in
      if length ids \<noteq> card (set ids) then
        fail (Value_error (Unique_ids field_name
          (set_order env (remdups (collect_duplicates {} ids)))))
      else Ok v)"

section \<open>Constrained strings\<close>

definition then_v :: "(json \<Rightarrow> 'a res) \<Rightarrow> ('a \<Rightarrow> 'b res) \<Rightarrow> json \<Rightarrow> 'b res" where
  "then_v P f j = and_then (P j) f"

definition pattern :: "(string \<Rightarrow> bool) \<Rightarrow> string \<Rightarrow> string res" where
  "pattern matches s = (if matches s then Ok s else fail String_pattern_mismatch)"

definition is_digit :: "char \<Rightarrow> bool" where
  "is_digit c = (let n = (of_char c :: nat) in 48 \<le> n \<and> n \<le> 57)"

definition is_alpha :: "char \<Rightarrow> bool" where
  "is_alpha c = (let n = (of_char c :: nat) in (65 \<le> n \<and> n \<le> 90) \<or> (97 \<le> n \<and> n \<le> 122))"

text \<open>
  The pattern of \<open>SourceDescription.name\<close> is the raw string
  \<^verbatim>\<open>^[A-Za-z0-9_\\-]+$\<close>: in the character class, the two backslashes are an escaped
  backslash and the hyphen before the bracket is a hyphen. The library's regular
  expressions match \<open>$\<close> at the end of the string only.
\<close>

definition name_char :: "char \<Rightarrow> bool" where
  "name_char c = (is_alpha c \<or> is_digit c \<or> c = CHR ''_'' \<or> c = CHR 0x5C \<or> c = CHR ''-'')"

definition matches_name :: "string \<Rightarrow> bool" where
  "matches_name s = (s \<noteq> [] \<and> list_all name_char s)"

text \<open>
  The pattern of \<open>ArazzoSpecification.arazzo\<close>, \<^verbatim>\<open>^1\.0\.\d+(-.+)?$\<close>. The digits are
  the ASCII digits (the library's \<open>\d\<close> also takes the decimal digits of other scripts);
  the dot is any character but a line feed.
\<close>

definition matches_arazzo_version :: "string \<Rightarrow> bool" where
  "matches_arazzo_version s =
     (take 4 s = ''1.0.'' \<and>
      (let digits = takeWhile is_digit (drop 4 s); rest = dropWhile is_digit (drop 4 s) in
       digits \<noteq> [] \<and>
       (case rest of
          [] \<Rightarrow> True
        | c # suffix \<Rightarrow> c = CHR ''-'' \<and> suffix \<noteq> [] \<and> list_all (\<lambda>d. d \<noteq> CHR 0x0A) suffix)))"

text \<open>
  \<^verbatim>\<open>re.search(r"\s", v)\<close> on a Python string: the characters of \<open>\s\<close> are those of
  \<open>str.isspace\<close>, U+0009 to U+000D, U+001C to U+0020, U+0085, U+00A0, U+1680, U+2000 to
  U+200A, U+2028, U+2029, U+202F, U+205F and U+3000, here in UTF-8.
\<close>

fun space_at :: "nat list \<Rightarrow> bool" where
  "space_at [] = False"
| "space_at (a # bs) =
     ((9 \<le> a \<and> a \<le> 13) \<or> (28 \<le> a \<and> a \<le> 32) \<or>
      (a = 0xC2 \<and> (take 1 bs = [0x85] \<or> take 1 bs = [0xA0])) \<or>
      (a = 0xE1 \<and> take 2 bs = [0x9A, 0x80]) \<or>
      (a = 0xE2 \<and> (case bs of
          b # c # ds \<Rightarrow>
            (b = 0x80 \<and> ((0x80 \<le> c \<and> c \<le> 0x8A) \<or> c = 0xA8 \<or> c = 0xA9 \<or> c = 0xAF)) \<or>
            (b = 0x81 \<and> c = 0x9F)
        | _ \<Rightarrow> False)) \<or>
      (a = 0xE3 \<and> take 2 bs = [0x80, 0x80]))"

fun search_space :: "nat list \<Rightarrow> bool" where
  "search_space [] = False"
| "search_space (a # bs) = (space_at (a # bs) \<or> search_space bs)"

definition validate_uri_reference :: "string \<Rightarrow> string res" where
  "validate_uri_reference v =
     (if search_space (map of_char v) then fail (Value_error Url_whitespace) else Ok v)"

section \<open>The typed document model\<close>

fun model_v :: "((string \<times> json) list \<Rightarrow> 'a res) \<Rightarrow> json \<Rightarrow> 'a res" where
  "model_v F (JObj kvs) = F kvs"
| "model_v F j = fail Model_type"

definition truthy :: "string option \<Rightarrow> bool" where
  "truthy v = (case v of None \<Rightarrow> False | Some s \<Rightarrow> s \<noteq> [])"

subsection \<open>Info\<close>

datatype info = Info
  (info_title: string)
  (info_summary: "string option")
  (info_description: "string option")
  (info_version: string)
  (info_extra: "(string \<times> json) list")

definition Info_fields :: "(string \<times> string) list" where
  "Info_fields = [(''title'', ''title''), (''summary'', ''summary''),
     (''description'', ''description''), (''version'', ''version'')]"

definition validate_Info :: "json \<Rightarrow> info res" where
  "validate_Info = model_v (\<lambda>kvs.
     ap (ap (ap (ap (ap (Ok Info)
       (required ''title'' ''title'' str_v kvs))
       (optional ''summary'' ''summary'' (nullable str_v) None kvs))
       (optional ''description'' ''description'' (nullable str_v) None kvs))
       (required ''version'' ''version'' str_v kvs))
       (Ok (model_extra Info_fields kvs)))"

subsection \<open>SourceDescription\<close>

datatype source_type = ARAZZO | OPENAPI

definition SourceType :: "string \<Rightarrow> source_type option" where
  "SourceType s =
     (if s = ''arazzo'' then Some ARAZZO else if s = ''openapi'' then Some OPENAPI else None)"

datatype source_description = SourceDescription
  (sd_name: string)
  (sd_url: string)
  (sd_type: "source_type option")
  (sd_extra: "(string \<times> json) list")

definition SourceDescription_fields :: "(string \<times> string) list" where
  "SourceDescription_fields = [(''name'', ''name''), (''url'', ''url''), (''type'', ''type'')]"

definition validate_SourceDescription :: "json \<Rightarrow> source_description res" where
  "validate_SourceDescription = model_v (\<lambda>kvs.
     ap (ap (ap (ap (Ok SourceDescription)
       (required ''name'' ''name'' (then_v str_v (pattern matches_name)) kvs))
       (required ''url'' ''url'' (then_v str_v validate_uri_reference) kvs))
       (optional ''type'' ''type'' (nullable (enum_v SourceType)) None kvs))
       (Ok (model_extra SourceDescription_fields kvs)))"

subsection \<open>ReusableObject, Parameter, PayloadReplacement, RequestBody\<close>

datatype reusable_object = ReusableObject
  (ro_reference: string)
  (ro_value: "json option")
  (ro_extra: "(string \<times> json) list")

definition ReusableObject_fields :: "(string \<times> string) list" where
  "ReusableObject_fields = [(''reference'', ''reference''), (''value'', ''value'')]"

definition validate_ReusableObject :: "json \<Rightarrow> reusable_object res" where
  "validate_ReusableObject = model_v (\<lambda>kvs.
     ap (ap (ap (Ok ReusableObject)
       (required ''reference'' ''reference'' str_v kvs))
       (optional ''value'' ''value'' (nullable any_v) None kvs))
       (Ok (model_extra ReusableObject_fields kvs)))"

datatype in_location = PATH | QUERY | HEADER | COOKIE

definition InLocation :: "string \<Rightarrow> in_location option" where
  "InLocation s =
     (if s = ''path'' then Some PATH else if s = ''query'' then Some QUERY
      else if s = ''header'' then Some HEADER else if s = ''cookie'' then Some COOKIE
      else None)"

datatype parameter = Parameter
  (param_name: string)
  (param_in: "in_location option")
  (param_value: json)
  (param_extra: "(string \<times> json) list")

definition Parameter_fields :: "(string \<times> string) list" where
  "Parameter_fields = [(''name'', ''name''), (''in'', ''in_''), (''value'', ''value'')]"

definition validate_Parameter :: "json \<Rightarrow> parameter res" where
  "validate_Parameter = model_v (\<lambda>kvs.
     ap (ap (ap (ap (Ok Parameter)
       (required ''name'' ''name'' str_v kvs))
       (optional ''in'' ''in_'' (nullable (enum_v InLocation)) None kvs))
       (required ''value'' ''value'' any_v kvs))
       (Ok (model_extra Parameter_fields kvs)))"

datatype payload_replacement = PayloadReplacement
  (pr_target: string)
  (pr_value: string)
  (pr_extra: "(string \<times> json) list")

definition PayloadReplacement_fields :: "(string \<times> string) list" where
  "PayloadReplacement_fields = [(''target'', ''target''), (''value'', ''value'')]"

definition validate_PayloadReplacement :: "json \<Rightarrow> payload_replacement res" where
  "validate_PayloadReplacement = model_v (\<lambda>kvs.
     ap (ap (ap (Ok PayloadReplacement)
       (required ''target'' ''target'' str_v kvs))
       (required ''value'' ''value'' str_v kvs))
       (Ok (model_extra PayloadReplacement_fields kvs)))"

datatype request_body = RequestBody
  (rb_content_type: "string option")
  (rb_payload: "json option")
  (rb_replacements: "payload_replacement list option")
  (rb_extra: "(string \<times> json) list")

definition RequestBody_fields :: "(string \<times> string) list" where
  "RequestBody_fields = [(''contentType'', ''content_type''), (''payload'', ''payload''),
     (''replacements'', ''replacements'')]"

definition validate_RequestBody :: "json \<Rightarrow> request_body res" where
  "validate_RequestBody = model_v (\<lambda>kvs.
     ap (ap (ap (ap (Ok RequestBody)
       (optional ''contentType'' ''content_type'' (nullable str_v) None kvs))
       (optional ''payload'' ''payload'' (nullable any_v) None kvs))
       (optional ''replacements'' ''replacements''
          (then_v (nullable (list_v validate_PayloadReplacement 0))
             (unique_models ''replacements'')) None kvs))
       (Ok (model_extra RequestBody_fields kvs)))"

subsection \<open>CriterionExpressionType and Criterion\<close>

datatype expression_type = ET_JSONPATH | ET_XPATH

definition ExpressionType :: "string \<Rightarrow> expression_type option" where
  "ExpressionType s =
     (if s = ''jsonpath'' then Some ET_JSONPATH else if s = ''xpath'' then Some ET_XPATH
      else None)"

fun expression_type_value :: "expression_type \<Rightarrow> string" where
  "expression_type_value ET_JSONPATH = ''jsonpath''"
| "expression_type_value ET_XPATH = ''xpath''"

definition DRAFT_GOESSNER :: string where
  "DRAFT_GOESSNER = ''draft-goessner-dispatch-jsonpath-00''"

definition XPathVersion :: "string list" where
  "XPathVersion = [''xpath-10'', ''xpath-20'', ''xpath-30'']"

datatype criterion_expression_type = CriterionExpressionType
  (cet_type: expression_type)
  (cet_version: string)
  (cet_extra: "(string \<times> json) list")

definition check_conditional_version :: "criterion_expression_type \<Rightarrow> criterion_expression_type res" where
  "check_conditional_version self =
     (if cet_type self = ET_JSONPATH \<and> cet_version self \<noteq> DRAFT_GOESSNER then
        fail (Invalid_jsonpath_version DRAFT_GOESSNER)
      else if cet_type self = ET_XPATH \<and> cet_version self \<notin> set XPathVersion then
        fail (Invalid_xpath_version ''xpath-10, xpath-20, xpath-30'')
      else Ok self)"

definition CriterionExpressionType_fields :: "(string \<times> string) list" where
  "CriterionExpressionType_fields = [(''type'', ''type''), (''version'', ''version'')]"

definition CriterionExpressionType_model :: "json \<Rightarrow> criterion_expression_type res" where
  "CriterionExpressionType_model = model_v (\<lambda>kvs.
     ap (ap (ap (Ok CriterionExpressionType)
       (required ''type'' ''type'' (enum_v ExpressionType) kvs))
       (required ''version'' ''version'' str_v kvs))
       (Ok (model_extra CriterionExpressionType_fields kvs)))"

definition validate_CriterionExpressionType :: "json \<Rightarrow> criterion_expression_type res" where
  "validate_CriterionExpressionType = then_v (CriterionExpressionType_model) check_conditional_version"

datatype condition_type = SIMPLE | REGEX | CT_JSONPATH | CT_XPATH

definition ConditionType :: "string \<Rightarrow> condition_type option" where
  "ConditionType s =
     (if s = ''simple'' then Some SIMPLE else if s = ''regex'' then Some REGEX
      else if s = ''jsonpath'' then Some CT_JSONPATH else if s = ''xpath'' then Some CT_XPATH
      else None)"

fun condition_type_value :: "condition_type \<Rightarrow> string" where
  "condition_type_value SIMPLE = ''simple''"
| "condition_type_value REGEX = ''regex''"
| "condition_type_value CT_JSONPATH = ''jsonpath''"
| "condition_type_value CT_XPATH = ''xpath''"

text \<open>
  The field \<open>type\<close> of a criterion is \<open>Union[ConditionType, CriterionExpressionType]\<close>:
  \<open>Inl\<close> the plain tag, \<open>Inr\<close> the object.
\<close>

datatype criterion = Criterion
  (crit_context: "string option")
  (crit_condition: string)
  (crit_type: "condition_type + criterion_expression_type")
  (crit_extra: "(string \<times> json) list")

definition check_dependent_required :: "criterion \<Rightarrow> criterion res" where
  "check_dependent_required self =
     (if (case crit_type self of
            Inl t \<Rightarrow> t \<in> set [CT_JSONPATH, CT_XPATH]
          | Inr e \<Rightarrow> True) \<and> crit_context self = None then
        fail (Missing_context_for_expression_type
          (case crit_type self of
             Inl t \<Rightarrow> condition_type_value t
           | Inr e \<Rightarrow> expression_type_value (cet_type e)))
      else Ok self)"

definition Criterion_fields :: "(string \<times> string) list" where
  "Criterion_fields = [(''context'', ''context''), (''condition'', ''condition''),
     (''type'', ''type'')]"

definition Criterion_model :: "env \<Rightarrow> json \<Rightarrow> criterion res" where
  "Criterion_model env = model_v (\<lambda>kvs.
     ap (ap (ap (ap (Ok Criterion)
       (optional ''context'' ''context'' (nullable str_v) None kvs))
       (required ''condition'' ''condition'' str_v kvs))
       (optional ''type'' ''type''
          (union_v env ''ConditionType'' (enum_v ConditionType)
             ''CriterionExpressionType'' validate_CriterionExpressionType)
          (Inl SIMPLE) kvs))
       (Ok (model_extra Criterion_fields kvs)))"

definition validate_Criterion :: "env \<Rightarrow> json \<Rightarrow> criterion res" where
  "validate_Criterion env = then_v (Criterion_model env) check_dependent_required"

subsection \<open>SuccessAction and FailureAction\<close>

datatype success_action_type = SA_END | SA_GOTO

definition SuccessActionType :: "string \<Rightarrow> success_action_type option" where
  "SuccessActionType s =
     (if s = ''end'' then Some SA_END else if s = ''goto'' then Some SA_GOTO else None)"

fun success_action_type_value :: "success_action_type \<Rightarrow> string" where
  "success_action_type_value SA_END = ''end''"
| "success_action_type_value SA_GOTO = ''goto''"

datatype success_action = SuccessAction
  (sa_name: string)
  (sa_type: success_action_type)
  (sa_workflow_id: "string option")
  (sa_step_id: "string option")
  (sa_criteria: "criterion list option")
  (sa_extra: "(string \<times> json) list")

definition check_conditional_goto :: "success_action \<Rightarrow> success_action res" where
  "check_conditional_goto self =
     (if sa_type self = SA_GOTO then
        (if \<not> (truthy (sa_workflow_id self) \<or> truthy (sa_step_id self)) then
           fail (Goto_missing_target (success_action_type_value (sa_type self)))
         else if truthy (sa_workflow_id self) \<and> truthy (sa_step_id self) then
           fail (Goto_exclusive_target (success_action_type_value (sa_type self)))
         else Ok self)
      else Ok self)"

definition SuccessAction_fields :: "(string \<times> string) list" where
  "SuccessAction_fields = [(''name'', ''name''), (''type'', ''type''),
     (''workflowId'', ''workflow_id''), (''stepId'', ''step_id''), (''criteria'', ''criteria'')]"

definition SuccessAction_model :: "env \<Rightarrow> json \<Rightarrow> success_action res" where
  "SuccessAction_model env = model_v (\<lambda>kvs.
     ap (ap (ap (ap (ap (ap (Ok SuccessAction)
       (required ''name'' ''name'' str_v kvs))
       (required ''type'' ''type'' (enum_v SuccessActionType) kvs))
       (optional ''workflowId'' ''workflow_id'' (nullable str_v) None kvs))
       (optional ''stepId'' ''step_id'' (nullable str_v) None kvs))
       (optional ''criteria'' ''criteria''
          (then_v (nullable (list_v (validate_Criterion env) 1)) (unique_models ''criteria''))
          None kvs))
       (Ok (model_extra SuccessAction_fields kvs)))"

definition validate_SuccessAction :: "env \<Rightarrow> json \<Rightarrow> success_action res" where
  "validate_SuccessAction env = then_v (SuccessAction_model env) check_conditional_goto"

datatype failure_action_type = FA_END | FA_GOTO | FA_RETRY

definition FailureActionType :: "string \<Rightarrow> failure_action_type option" where
  "FailureActionType s =
     (if s = ''end'' then Some FA_END else if s = ''goto'' then Some FA_GOTO
      else if s = ''retry'' then Some FA_RETRY else None)"

fun failure_action_type_value :: "failure_action_type \<Rightarrow> string" where
  "failure_action_type_value FA_END = ''end''"
| "failure_action_type_value FA_GOTO = ''goto''"
| "failure_action_type_value FA_RETRY = ''retry''"

datatype failure_action = FailureAction
  (fa_name: string)
  (fa_type: failure_action_type)
  (fa_workflow_id: "string option")
  (fa_step_id: "string option")
  (fa_retry_after: "rat option")
  (fa_retry_limit: "int option")
  (fa_criteria: "criterion list option")
  (fa_extra: "(string \<times> json) list")

definition check_conditional_goto_retry :: "failure_action \<Rightarrow> failure_action res" where
  "check_conditional_goto_retry self =
     (if fa_type self \<in> set [FA_GOTO, FA_RETRY] \<and>
         \<not> (truthy (fa_workflow_id self) \<or> truthy (fa_step_id self)) then
        fail (Goto_retry_missing_target (failure_action_type_value (fa_type self)))
      else if fa_type self \<in> set [FA_GOTO, FA_RETRY] \<and>
         truthy (fa_workflow_id self) \<and> truthy (fa_step_id self) then
        fail (Goto_retry_exclusive_target (failure_action_type_value (fa_type self)))
      else if fa_type self = FA_RETRY \<and> fa_retry_after self = None then
        fail (Retry_missing_retry_after (failure_action_type_value (fa_type self)))
      else Ok self)"

definition FailureAction_fields :: "(string \<times> string) list" where
  "FailureAction_fields = [(''name'', ''name''), (''type'', ''type''),
     (''workflowId'', ''workflow_id''), (''stepId'', ''step_id''),
     (''retryAfter'', ''retry_after''), (''retryLimit'', ''retry_limit''),
     (''criteria'', ''criteria'')]"

definition FailureAction_model :: "env \<Rightarrow> json \<Rightarrow> failure_action res" where
  "FailureAction_model env = model_v (\<lambda>kvs.
     ap (ap (ap (ap (ap (ap (ap (ap (Ok FailureAction)
       (required ''name'' ''name'' str_v kvs))
       (required ''type'' ''type'' (enum_v FailureActionType) kvs))
       (optional ''workflowId'' ''workflow_id'' (nullable str_v) None kvs))
       (optional ''stepId'' ''step_id'' (nullable str_v) None kvs))
       (optional ''retryAfter'' ''retry_after'' (nullable (then_v (float_v env) ge0)) None kvs))
       (optional ''retryLimit'' ''retry_limit'' (nullable (then_v (int_v env) ge0)) None kvs))
       (optional ''criteria'' ''criteria''
          (then_v (nullable (list_v (validate_Criterion env) 0)) (unique_models ''criteria''))
          None kvs))
       (Ok (model_extra FailureAction_fields kvs)))"

definition validate_FailureAction :: "env \<Rightarrow> json \<Rightarrow> failure_action res" where
  "validate_FailureAction env = then_v (FailureAction_model env) check_conditional_goto_retry"

subsection \<open>Step\<close>

datatype step = Step
  (step_id: string)
  (step_description: "string option")
  (step_operation_id: "string option")
  (step_operation_path: "string option")
  (step_workflow_id: "string option")
  (step_parameters: "(parameter + reusable_object) list option")
  (step_request_body: "request_body option")
  (step_success_criteria: "criterion list option")
  (step_on_success: "(success_action + reusable_object) list option")
  (step_on_failure: "(failure_action + reusable_object) list option")
  (step_outputs: "(string \<times> string) list option")
  (step_extra: "(string \<times> json) list")

text \<open>
  The two loops over \<open>enumerate(self.parameters)\<close>. An entry of the typed list is a
  \<open>Parameter\<close> (\<open>Inl\<close>) or a \<open>ReusableObject\<close> (\<open>Inr\<close>), so the branches of the source that
  raise \<open>invalid_parameter_type_for_operation\<close> and \<open>invalid_parameter_type_for_workflow\<close>
  are never taken. The result is the error the loop raises, if it raises.
\<close>

fun operation_parameters :: "nat \<Rightarrow> (parameter + reusable_object) list \<Rightarrow> err_type option" where
  "operation_parameters i [] = None"
| "operation_parameters i (Inl param # params) =
     (if param_in param = None then Some (Parameter_in_required_for_operation i)
      else operation_parameters (Suc i) params)"
| "operation_parameters i (Inr reusable # params) = operation_parameters (Suc i) params"

fun workflow_parameters :: "nat \<Rightarrow> (parameter + reusable_object) list \<Rightarrow> err_type option" where
  "workflow_parameters i [] = None"
| "workflow_parameters i (param # params) = workflow_parameters (Suc i) params"

definition check_conditional_step_target :: "step \<Rightarrow> step res" where
  "check_conditional_step_target self =
     (let target_fields = [step_operation_id self, step_operation_path self, step_workflow_id self];
          present_targets = filter (\<lambda>t. t \<noteq> None) target_fields in
      if present_targets = [] then fail Step_missing_target_type
      else if length present_targets > 1 then fail Step_exclusive_target_type
      else
        (case step_parameters self of
           Some (p # ps) \<Rightarrow>
             (if truthy (step_operation_id self) \<or> truthy (step_operation_path self) then
                (case operation_parameters 0 (p # ps) of Some e \<Rightarrow> fail e | None \<Rightarrow> Ok self)
              else if truthy (step_workflow_id self) then
                (case workflow_parameters 0 (p # ps) of Some e \<Rightarrow> fail e | None \<Rightarrow> Ok self)
              else Ok self)
         | _ \<Rightarrow> Ok self))"

definition Step_fields :: "(string \<times> string) list" where
  "Step_fields = [(''stepId'', ''step_id''), (''description'', ''description''),
     (''operationId'', ''operation_id''), (''operationPath'', ''operation_path''),
     (''workflowId'', ''workflow_id''), (''parameters'', ''parameters''),
     (''requestBody'', ''request_body''), (''successCriteria'', ''success_criteria''),
     (''onSuccess'', ''on_success''), (''onFailure'', ''on_failure''),
     (''outputs'', ''outputs'')]"

definition parameter_or_reusable :: "env \<Rightarrow> json \<Rightarrow> (parameter + reusable_object) res" where
  "parameter_or_reusable env =
     union_v env ''Parameter'' validate_Parameter ''ReusableObject'' validate_ReusableObject"

definition success_action_or_reusable :: "env \<Rightarrow> json \<Rightarrow> (success_action + reusable_object) res" where
  "success_action_or_reusable env =
     union_v env ''SuccessAction'' (validate_SuccessAction env)
       ''ReusableObject'' validate_ReusableObject"

definition failure_action_or_reusable :: "env \<Rightarrow> json \<Rightarrow> (failure_action + reusable_object) res" where
  "failure_action_or_reusable env =
     union_v env ''FailureAction'' (validate_FailureAction env)
       ''ReusableObject'' validate_ReusableObject"

definition Step_model :: "env \<Rightarrow> json \<Rightarrow> step res" where
  "Step_model env = model_v (\<lambda>kvs.
     ap (ap (ap (ap (ap (ap (ap (ap (ap (ap (ap (ap (Ok Step)
       (required ''stepId'' ''step_id'' str_v kvs))
       (optional ''description'' ''description'' (nullable str_v) None kvs))
       (optional ''operationId'' ''operation_id'' (nullable str_v) None kvs))
       (optional ''operationPath'' ''operation_path'' (nullable str_v) None kvs))
       (optional ''workflowId'' ''workflow_id'' (nullable str_v) None kvs))
       (optional ''parameters'' ''parameters''
          (then_v (nullable (list_v (parameter_or_reusable env) 0))
             (unique_models ''parameters'')) None kvs))
       (optional ''requestBody'' ''request_body'' (nullable validate_RequestBody) None kvs))
       (optional ''successCriteria'' ''success_criteria''
          (then_v (nullable (list_v (validate_Criterion env) 1))
             (unique_models ''success_criteria'')) None kvs))
       (optional ''onSuccess'' ''on_success''
          (then_v (nullable (list_v (success_action_or_reusable env) 0))
             (unique_models ''on_success'')) None kvs))
       (optional ''onFailure'' ''on_failure''
          (then_v (nullable (list_v (failure_action_or_reusable env) 0))
             (unique_models ''on_failure'')) None kvs))
       (optional ''outputs'' ''outputs'' (nullable (dict_v str_v)) None kvs))
       (Ok (model_extra Step_fields kvs)))"

definition validate_Step :: "env \<Rightarrow> json \<Rightarrow> step res" where
  "validate_Step env = then_v (Step_model env) check_conditional_step_target"

subsection \<open>Workflow\<close>

datatype workflow = Workflow
  (wf_workflow_id: string)
  (wf_summary: "string option")
  (wf_description: "string option")
  (wf_inputs: "(string \<times> json) list option")
  (wf_depends_on: "string list option")
  (wf_steps: "step list")
  (wf_success_actions: "(success_action + reusable_object) list option")
  (wf_failure_actions: "(failure_action + reusable_object) list option")
  (wf_outputs: "(string \<times> string) list option")
  (wf_parameters: "(parameter + reusable_object) list option")
  (wf_extra: "(string \<times> json) list")

text \<open>\<open>Schema\<close> is a root model of \<open>Dict[str, Any]\<close>: the mapping as it is.\<close>

definition validate_Schema :: "json \<Rightarrow> (string \<times> json) list res" where
  "validate_Schema = dict_v any_v"

definition Workflow_fields :: "(string \<times> string) list" where
  "Workflow_fields = [(''workflowId'', ''workflow_id''), (''summary'', ''summary''),
     (''description'', ''description''), (''inputs'', ''inputs''),
     (''dependsOn'', ''depends_on''), (''steps'', ''steps''),
     (''successActions'', ''success_actions''), (''failureActions'', ''failure_actions''),
     (''outputs'', ''outputs''), (''parameters'', ''parameters'')]"

definition validate_steps_uniqueness :: "env \<Rightarrow> step list \<Rightarrow> step list res" where
  "validate_steps_uniqueness env v = unique_ids env ''steps'' step_id v"

definition validate_Workflow :: "env \<Rightarrow> json \<Rightarrow> workflow res" where
  "validate_Workflow env = model_v (\<lambda>kvs.
     ap (ap (ap (ap (ap (ap (ap (ap (ap (ap (ap (Ok Workflow)
       (required ''workflowId'' ''workflow_id'' str_v kvs))
       (optional ''summary'' ''summary'' (nullable str_v) None kvs))
       (optional ''description'' ''description'' (nullable str_v) None kvs))
       (optional ''inputs'' ''inputs'' (nullable validate_Schema) None kvs))
       (optional ''dependsOn'' ''depends_on''
          (then_v (nullable (list_v str_v 0)) (unique_strs ''depends_on'')) None kvs))
       (required ''steps'' ''steps''
          (then_v (list_v (validate_Step env) 1) (validate_steps_uniqueness env)) kvs))
       (optional ''successActions'' ''success_actions''
          (then_v (nullable (list_v (success_action_or_reusable env) 0))
             (unique_models ''success_actions'')) None kvs))
       (optional ''failureActions'' ''failure_actions''
          (then_v (nullable (list_v (failure_action_or_reusable env) 0))
             (unique_models ''failure_actions'')) None kvs))
       (optional ''outputs'' ''outputs'' (nullable (dict_v str_v)) None kvs))
       (optional ''parameters'' ''parameters''
          (then_v (nullable (list_v (parameter_or_reusable env) 0))
             (unique_models ''parameters'')) None kvs))
       (Ok (model_extra Workflow_fields kvs)))"

subsection \<open>Components and the root document\<close>

datatype components = Components
  (comp_inputs: "(string \<times> (string \<times> json) list) list option")
  (comp_parameters: "(string \<times> parameter) list option")
  (comp_success_actions: "(string \<times> success_action) list option")
  (comp_failure_actions: "(string \<times> failure_action) list option")
  (comp_extra: "(string \<times> json) list")

definition Components_fields :: "(string \<times> string) list" where
  "Components_fields = [(''inputs'', ''inputs''), (''parameters'', ''parameters''),
     (''successActions'', ''success_actions''), (''failureActions'', ''failure_actions'')]"

definition validate_Components :: "env \<Rightarrow> json \<Rightarrow> components res" where
  "validate_Components env = model_v (\<lambda>kvs.
     ap (ap (ap (ap (ap (Ok Components)
       (optional ''inputs'' ''inputs'' (nullable (dict_v validate_Schema)) None kvs))
       (optional ''parameters'' ''parameters'' (nullable (dict_v validate_Parameter)) None kvs))
       (optional ''successActions'' ''success_actions''
          (nullable (dict_v (validate_SuccessAction env))) None kvs))
       (optional ''failureActions'' ''failure_actions''
          (nullable (dict_v (validate_FailureAction env))) None kvs))
       (Ok (model_extra Components_fields kvs)))"

datatype arazzo_specification = ArazzoSpecification
  (doc_arazzo: string)
  (doc_info: info)
  (doc_source_descriptions: "source_description list")
  (doc_workflows: "workflow list")
  (doc_components: "components option")
  (doc_extra: "(string \<times> json) list")

definition ArazzoSpecification_fields :: "(string \<times> string) list" where
  "ArazzoSpecification_fields = [(''arazzo'', ''arazzo''), (''info'', ''info''),
     (''sourceDescriptions'', ''source_descriptions''), (''workflows'', ''workflows''),
     (''components'', ''components'')]"

definition validate_source_descriptions_uniqueness ::
  "env \<Rightarrow> source_description list \<Rightarrow> source_description list res" where
  "validate_source_descriptions_uniqueness env v = unique_ids env ''source_descriptions'' sd_name v"

definition validate_workflows_uniqueness :: "env \<Rightarrow> workflow list \<Rightarrow> workflow list res" where
  "validate_workflows_uniqueness env v = unique_ids env ''workflows'' wf_workflow_id v"

definition validate_ArazzoSpecification :: "env \<Rightarrow> json \<Rightarrow> arazzo_specification res" where
  "validate_ArazzoSpecification env = model_v (\<lambda>kvs.
     ap (ap (ap (ap (ap (ap (Ok ArazzoSpecification)
       (required ''arazzo'' ''arazzo'' (then_v str_v (pattern matches_arazzo_version)) kvs))
       (required ''info'' ''info'' validate_Info kvs))
       (required ''sourceDescriptions'' ''source_descriptions''
          (then_v (list_v validate_SourceDescription 1)
             (validate_source_descriptions_uniqueness env)) kvs))
       (required ''workflows'' ''workflows''
          (then_v (list_v (validate_Workflow env) 1) (validate_workflows_uniqueness env)) kvs))
       (optional ''components'' ''components'' (nullable (validate_Components env)) None kvs))
       (Ok (model_extra ArazzoSpecification_fields kvs)))"

definition validate_arazzo_data :: "env \<Rightarrow> json \<Rightarrow> arazzo_specification res" where
  "validate_arazzo_data env data = validate_ArazzoSpecification env data"

section \<open>The nodes of a typed document\<close>

text \<open>
  The steps, the actions and the criteria of a document, wherever the model holds them: a
  step's \<open>onSuccess\<close> and \<open>onFailure\<close>, a workflow's \<open>successActions\<close> and
  \<open>failureActions\<close>, the pools of \<open>components\<close>; the \<open>successCriteria\<close> of a step and the
  \<open>criteria\<close> of an action.
\<close>

definition opt_items :: "'a list option \<Rightarrow> 'a list" where
  "opt_items v = (case v of None \<Rightarrow> [] | Some xs \<Rightarrow> xs)"

fun inl_items :: "('a + 'b) list \<Rightarrow> 'a list" where
  "inl_items [] = []"
| "inl_items (Inl a # xs) = a # inl_items xs"
| "inl_items (Inr b # xs) = inl_items xs"

definition doc_steps :: "arazzo_specification \<Rightarrow> step list" where
  "doc_steps d = concat (map wf_steps (doc_workflows d))"

definition workflow_success_actions :: "workflow \<Rightarrow> success_action list" where
  "workflow_success_actions w =
     inl_items (opt_items (wf_success_actions w)) @
     concat (map (\<lambda>s. inl_items (opt_items (step_on_success s))) (wf_steps w))"

definition workflow_failure_actions :: "workflow \<Rightarrow> failure_action list" where
  "workflow_failure_actions w =
     inl_items (opt_items (wf_failure_actions w)) @
     concat (map (\<lambda>s. inl_items (opt_items (step_on_failure s))) (wf_steps w))"

definition doc_success_actions :: "arazzo_specification \<Rightarrow> success_action list" where
  "doc_success_actions d =
     concat (map workflow_success_actions (doc_workflows d)) @
     (case doc_components d of
        None \<Rightarrow> []
      | Some c \<Rightarrow> map snd (opt_items (comp_success_actions c)))"

definition doc_failure_actions :: "arazzo_specification \<Rightarrow> failure_action list" where
  "doc_failure_actions d =
     concat (map workflow_failure_actions (doc_workflows d)) @
     (case doc_components d of
        None \<Rightarrow> []
      | Some c \<Rightarrow> map snd (opt_items (comp_failure_actions c)))"

definition doc_criteria :: "arazzo_specification \<Rightarrow> criterion list" where
  "doc_criteria d =
     concat (map (\<lambda>s. opt_items (step_success_criteria s)) (doc_steps d)) @
     concat (map (\<lambda>a. opt_items (sa_criteria a)) (doc_success_actions d)) @
     concat (map (\<lambda>a. opt_items (fa_criteria a)) (doc_failure_actions d))"

text \<open>The targets of a step that are present, as the source counts them.\<close>

definition present_targets :: "step \<Rightarrow> string option list" where
  "present_targets s =
     filter (\<lambda>t. t \<noteq> None) [step_operation_id s, step_operation_path s, step_workflow_id s]"

section \<open>What a validated node satisfies\<close>

text \<open>
  \<open>post P Q\<close>: whatever the validator \<open>P\<close> returns satisfies \<open>Q\<close>. \<open>rejects r E\<close>: the result
  \<open>r\<close> is no value, and if it is a \<open>ValidationError\<close> then the errors \<open>E\<close> are among its
  errors.
\<close>

definition post :: "('i \<Rightarrow> 'a res) \<Rightarrow> ('a \<Rightarrow> bool) \<Rightarrow> bool" where
  "post P Q = (\<forall>j x. P j = Ok x \<longrightarrow> Q x)"

fun rejects :: "'a res \<Rightarrow> verr set \<Rightarrow> bool" where
  "rejects (Ok x) E = False"
| "rejects (Invalid es) E = (E \<subseteq> set es)"
| "rejects (Raised e) E = True"

definition unique_list :: "'a list option \<Rightarrow> bool" where
  "unique_list v = (case v of None \<Rightarrow> True | Some xs \<Rightarrow> distinct xs)"

definition criterion_valid :: "criterion \<Rightarrow> bool" where
  "criterion_valid c =
     (check_dependent_required c = Ok c \<and>
      (case crit_type c of Inl t \<Rightarrow> True | Inr e \<Rightarrow> check_conditional_version e = Ok e))"

definition criteria_valid :: "nat \<Rightarrow> criterion list option \<Rightarrow> bool" where
  "criteria_valid n v =
     (case v of
        None \<Rightarrow> True
      | Some cs \<Rightarrow> list_all criterion_valid cs \<and> n \<le> length cs \<and> distinct cs)"

definition success_action_valid :: "success_action \<Rightarrow> bool" where
  "success_action_valid a =
     (check_conditional_goto a = Ok a \<and> criteria_valid 1 (sa_criteria a))"

definition failure_action_valid :: "failure_action \<Rightarrow> bool" where
  "failure_action_valid a =
     (check_conditional_goto_retry a = Ok a \<and>
      (case fa_retry_after a of None \<Rightarrow> True | Some r \<Rightarrow> 0 \<le> r) \<and>
      (case fa_retry_limit a of None \<Rightarrow> True | Some n \<Rightarrow> 0 \<le> n) \<and>
      criteria_valid 0 (fa_criteria a))"

definition success_actions_valid :: "(success_action + reusable_object) list option \<Rightarrow> bool" where
  "success_actions_valid v =
     (unique_list v \<and> list_all success_action_valid (inl_items (opt_items v)))"

definition failure_actions_valid :: "(failure_action + reusable_object) list option \<Rightarrow> bool" where
  "failure_actions_valid v =
     (unique_list v \<and> list_all failure_action_valid (inl_items (opt_items v)))"

definition step_valid :: "step \<Rightarrow> bool" where
  "step_valid s =
     (check_conditional_step_target s = Ok s \<and>
      unique_list (step_parameters s) \<and>
      (case step_request_body s of None \<Rightarrow> True | Some b \<Rightarrow> unique_list (rb_replacements b)) \<and>
      criteria_valid 1 (step_success_criteria s) \<and>
      success_actions_valid (step_on_success s) \<and>
      failure_actions_valid (step_on_failure s))"

definition workflow_valid :: "workflow \<Rightarrow> bool" where
  "workflow_valid w =
     (unique_list (wf_depends_on w) \<and>
      list_all step_valid (wf_steps w) \<and> 1 \<le> length (wf_steps w) \<and>
      distinct (map step_id (wf_steps w)) \<and>
      success_actions_valid (wf_success_actions w) \<and>
      failure_actions_valid (wf_failure_actions w) \<and>
      unique_list (wf_parameters w))"

definition components_valid :: "components \<Rightarrow> bool" where
  "components_valid c =
     (list_all (\<lambda>kv. success_action_valid (snd kv)) (opt_items (comp_success_actions c)) \<and>
      list_all (\<lambda>kv. failure_action_valid (snd kv)) (opt_items (comp_failure_actions c)))"

definition source_description_valid :: "source_description \<Rightarrow> bool" where
  "source_description_valid sd =
     (matches_name (sd_name sd) \<and> \<not> search_space (map of_char (sd_url sd)))"

definition doc_valid :: "arazzo_specification \<Rightarrow> bool" where
  "doc_valid d =
     (matches_arazzo_version (doc_arazzo d) \<and>
      list_all source_description_valid (doc_source_descriptions d) \<and>
      1 \<le> length (doc_source_descriptions d) \<and>
      distinct (map sd_name (doc_source_descriptions d)) \<and>
      list_all workflow_valid (doc_workflows d) \<and>
      1 \<le> length (doc_workflows d) \<and>
      distinct (map wf_workflow_id (doc_workflows d)) \<and>
      (case doc_components d of None \<Rightarrow> True | Some c \<Rightarrow> components_valid c))"

fun is_ok :: "'a res \<Rightarrow> bool" where
  "is_ok (Ok x) = True"
| "is_ok (Invalid es) = False"
| "is_ok (Raised e) = False"

section \<open>Places in a decoded document\<close>

text \<open>
  The value of a field of a mapping, with the key it was read under, and the item of a list.
  \<open>raw_step data w i\<close> is step \<open>i\<close> of workflow \<open>w\<close> of the decoded document, with the
  location the library reports for it.
\<close>

definition raw_field :: "string \<Rightarrow> string \<Rightarrow> json \<Rightarrow> (string \<times> json) option" where
  "raw_field alias fname j =
     (case j of JObj kvs \<Rightarrow> lookup_field alias fname kvs | _ \<Rightarrow> None)"

definition raw_item :: "nat \<Rightarrow> json \<Rightarrow> json option" where
  "raw_item i j =
     (case j of JList js \<Rightarrow> if i < length js then Some (js ! i) else None | _ \<Rightarrow> None)"

definition raw_step :: "json \<Rightarrow> nat \<Rightarrow> nat \<Rightarrow> (loc_item list \<times> json) option" where
  "raw_step data w i =
     (case raw_field ''workflows'' ''workflows'' data of
        None \<Rightarrow> None
      | Some (kw, ws) \<Rightarrow>
          (case raw_item w ws of
             None \<Rightarrow> None
           | Some wo \<Rightarrow>
               (case raw_field ''steps'' ''steps'' wo of
                  None \<Rightarrow> None
                | Some (ks, ss) \<Rightarrow>
                    (case raw_item i ss of
                       None \<Rightarrow> None
                     | Some s \<Rightarrow> Some ([Key kw, Idx w, Key ks, Idx i], s)))))"

text \<open>The document with the key \<open>version\<close> taken out of its \<open>info\<close> mapping.\<close>

fun without_key :: "string \<Rightarrow> json \<Rightarrow> json" where
  "without_key k (JObj kvs) = JObj (filter (\<lambda>(k', v). k' \<noteq> k) kvs)"
| "without_key k j = j"

fun without_info_version :: "json \<Rightarrow> json" where
  "without_info_version (JObj kvs) =
     JObj (map (\<lambda>(k, v). if k = ''info'' then (k, without_key ''version'' v) else (k, v)) kvs)"
| "without_info_version j = j"

text \<open>
  An entry of a typed parameter list that is a plain \<open>Parameter\<close> with no location tag, and
  the first such entry.
\<close>

definition lacks_in :: "(parameter + reusable_object) list \<Rightarrow> nat \<Rightarrow> bool" where
  "lacks_in ps n =
     (n < length ps \<and> (case ps ! n of Inl p \<Rightarrow> param_in p = None | Inr r \<Rightarrow> False))"

definition first_lacking_in :: "(parameter + reusable_object) list \<Rightarrow> nat \<Rightarrow> bool" where
  "first_lacking_in ps n = (lacks_in ps n \<and> (\<forall>m<n. \<not> lacks_in ps m))"

text \<open>The resolved type of a criterion: the tag, or the type of the expression-type object.\<close>

definition resolved_type :: "criterion \<Rightarrow> string" where
  "resolved_type c =
     (case crit_type c of
        Inl t \<Rightarrow> condition_type_value t
      | Inr e \<Rightarrow> expression_type_value (cet_type e))"

section \<open>Example documents\<close>

text \<open>
  Parameters of the library for the examples: no lax conversion, the first member of a union
  preferred, a set iterated in the order of insertion.
\<close>

definition env0 :: env where
  "env0 = \<lparr>lax_float = (\<lambda>j. None), lax_int = (\<lambda>j. None), smart_first = (\<lambda>j. True),
     set_order = (\<lambda>xs. xs)\<rparr>"

text \<open>A document with one source description of the given name and one workflow of the given steps.\<close>

definition example_doc :: "string \<Rightarrow> json list \<Rightarrow> json" where
  "example_doc source_name steps =
     JObj [(''arazzo'', JStr ''1.0.0''),
       (''info'', JObj [(''title'', JStr ''Pets''), (''version'', JStr ''1.0.0'')]),
       (''sourceDescriptions'', JList [JObj [(''name'', JStr source_name),
          (''url'', JStr ''https://petstore.example/openapi.json''), (''type'', JStr ''openapi'')]]),
       (''workflows'', JList [JObj [(''workflowId'', JStr ''getPet''), (''steps'', JList steps)]]),
       (''x-custom-extension'', JStr ''some-value'')]"

definition param_tagged :: json where
  "param_tagged = JObj [(''name'', JStr ''petId''), (''in'', JStr ''path''), (''value'', JInt 1)]"

definition param_untagged :: json where
  "param_untagged = JObj [(''name'', JStr ''limit''), (''value'', JInt 10)]"

definition param_untagged2 :: json where
  "param_untagged2 = JObj [(''name'', JStr ''offset''), (''value'', JInt 0)]"

definition criterion_jsonpath :: json where
  "criterion_jsonpath = JObj [(''context'', JStr ''$response.body''), (''condition'', JStr ''$.name''),
     (''type'', JObj [(''type'', JStr ''jsonpath''),
        (''version'', JStr ''draft-goessner-dispatch-jsonpath-00'')])]"

definition action_retry :: json where
  "action_retry = JObj [(''name'', JStr ''again''), (''type'', JStr ''retry''),
     (''stepId'', JStr ''s1''), (''retryAfter'', JInt 2)]"

definition step_good :: json where
  "step_good = JObj [(''stepId'', JStr ''s1''), (''operationId'', JStr ''getPetById''),
     (''parameters'', JList [param_tagged]),
     (''successCriteria'', JList [criterion_jsonpath]),
     (''onFailure'', JList [action_retry])]"

definition doc_good :: json where
  "doc_good = example_doc ''petstore'' [step_good]"

text \<open>Steps with no target, and with two.\<close>

definition step_no_target :: json where
  "step_no_target = JObj [(''stepId'', JStr ''s2'')]"

definition step_two_targets :: json where
  "step_two_targets = JObj [(''stepId'', JStr ''s2''), (''operationId'', JStr ''getPetById''),
     (''workflowId'', JStr ''other'')]"

text \<open>
  An operation step with two plain parameters that have no location tag; and a step whose
  \<open>operationId\<close> is the empty string, with such a parameter.
\<close>

definition step_two_untagged :: json where
  "step_two_untagged = JObj [(''stepId'', JStr ''s2''), (''operationId'', JStr ''getPetById''),
     (''parameters'', JList [param_untagged, param_untagged2])]"

definition step_empty_operation :: json where
  "step_empty_operation = JObj [(''stepId'', JStr ''s1''), (''operationId'', JStr []),
     (''parameters'', JList [param_untagged])]"

text \<open>Failure actions: a retry with nothing else, and a retry with a target and an empty one.\<close>

definition action_retry_bare :: json where
  "action_retry_bare = JObj [(''name'', JStr ''again''), (''type'', JStr ''retry'')]"

definition action_retry_empty_step :: json where
  "action_retry_empty_step = JObj [(''name'', JStr ''again''), (''type'', JStr ''retry''),
     (''workflowId'', JStr ''other''), (''stepId'', JStr [])]"

definition action_retry_negative :: json where
  "action_retry_negative = JObj [(''name'', JStr ''again''), (''type'', JStr ''retry''),
     (''stepId'', JStr ''s1''), (''retryAfter'', JInt (- 1))]"

text \<open>A step whose failure action has an empty list of criteria.\<close>

definition step_empty_criteria :: json where
  "step_empty_criteria = JObj [(''stepId'', JStr ''s1''), (''operationId'', JStr ''getPetById''),
     (''onFailure'', JList [JObj [(''name'', JStr ''stop''), (''type'', JStr ''end''),
        (''criteria'', JList [])]])]"

text \<open>A source description name with a backslash in it.\<close>

definition name_with_backslash :: string where
  "name_with_backslash = [CHR ''a'', CHR 0x5C, CHR ''b'']"

text \<open>A step with the same parameter twice.\<close>

definition step_duplicate_parameters :: json where
  "step_duplicate_parameters = JObj [(''stepId'', JStr ''s1''), (''operationId'', JStr ''getPetById''),
     (''parameters'', JList [param_tagged, param_tagged])]"

text \<open>An error seen from the root of the document: its location below the given path.\<close>

definition prefix_loc :: "loc_item list \<Rightarrow> verr \<Rightarrow> verr" where
  "prefix_loc p e = VErr (etype e) (p @ eloc e)"

text \<open>What the validation returns for some of the examples.\<close>

definition doc_good_typed :: arazzo_specification where
  "doc_good_typed =
     ArazzoSpecification ''1.0.0'' (Info ''Pets'' None None ''1.0.0'' [])
      [SourceDescription ''petstore'' ''https://petstore.example/openapi.json'' (Some OPENAPI) []]
      [Workflow ''getPet'' None None None None
        [Step ''s1'' None (Some ''getPetById'') None None
          (Some [Inl (Parameter ''petId'' (Some PATH) (JInt 1) [])]) None
          (Some
            [Criterion (Some ''$response.body'') ''$.name''
              (Inr (CriterionExpressionType ET_JSONPATH ''draft-goessner-dispatch-jsonpath-00'' []))
              []])
          None
          (Some [Inl (FailureAction ''again'' FA_RETRY None (Some ''s1'') (Some 2) None None [])])
          None []]
        None None None None []]
      None [(''x-custom-extension'', JStr ''some-value'')]"

definition step_no_target_typed :: step where
  "step_no_target_typed = Step ''s2'' None None None None None None None None None None []"

definition step_two_targets_typed :: step where
  "step_two_targets_typed =
     Step ''s2'' None (Some ''getPetById'') None (Some ''other'') None None None None None None []"

definition step_two_untagged_typed :: step where
  "step_two_untagged_typed =
     Step ''s2'' None (Some ''getPetById'') None None
       (Some [Inl (Parameter ''limit'' None (JInt 10) []), Inl (Parameter ''offset'' None (JInt 0) [])])
       None None None None None []"

definition step_empty_operation_typed :: step where
  "step_empty_operation_typed =
     Step ''s1'' None (Some []) None None
       (Some [Inl (Parameter ''limit'' None (JInt 10) [])]) None None None None None []"

definition doc_empty_operation_typed :: arazzo_specification where
  "doc_empty_operation_typed =
     ArazzoSpecification ''1.0.0'' (Info ''Pets'' None None ''1.0.0'' [])
      [SourceDescription ''petstore'' ''https://petstore.example/openapi.json'' (Some OPENAPI) []]
      [Workflow ''getPet'' None None None None [step_empty_operation_typed] None None None None []]
      None [(''x-custom-extension'', JStr ''some-value'')]"

definition action_retry_bare_typed :: failure_action where
  "action_retry_bare_typed = FailureAction ''again'' FA_RETRY None None None None None []"

definition action_retry_empty_step_typed :: failure_action where
  "action_retry_empty_step_typed =
     FailureAction ''again'' FA_RETRY (Some ''other'') (Some []) None None None []"

definition criterion_jsonpath_typed :: criterion where
  "criterion_jsonpath_typed =
     Criterion (Some ''$response.body'') ''$.name''
       (Inr (CriterionExpressionType ET_JSONPATH ''draft-goessner-dispatch-jsonpath-00'' [])) []"

definition criterion_no_context :: json where
  "criterion_no_context = JObj [(''condition'', JStr ''$.name''), (''type'', JStr ''xpath'')]"

definition criterion_no_context_typed :: criterion where
  "criterion_no_context_typed = Criterion None ''$.name'' (Inl CT_XPATH) []"

definition expression_type_bad_jsonpath :: json where
  "expression_type_bad_jsonpath = JObj [(''type'', JStr ''jsonpath''), (''version'', JStr ''1.0'')]"

definition expression_type_bad_xpath :: json where
  "expression_type_bad_xpath = JObj [(''type'', JStr ''xpath''), (''version'', JStr ''xpath-40'')]"

definition success_goto_empty :: json where
  "success_goto_empty = JObj [(''name'', JStr ''next''), (''type'', JStr ''goto''),
     (''workflowId'', JStr []), (''stepId'', JStr [])]"

definition success_goto_empty_typed :: success_action where
  "success_goto_empty_typed = SuccessAction ''next'' SA_GOTO (Some []) (Some []) None []"

definition success_goto_one_empty :: json where
  "success_goto_one_empty = JObj [(''name'', JStr ''next''), (''type'', JStr ''goto''),
     (''workflowId'', JStr ''other''), (''stepId'', JStr [])]"

definition success_goto_one_empty_typed :: success_action where
  "success_goto_one_empty_typed = SuccessAction ''next'' SA_GOTO (Some ''other'') (Some []) None []"

definition failure_goto_empty :: json where
  "failure_goto_empty = JObj [(''name'', JStr ''next''), (''type'', JStr ''goto''),
     (''workflowId'', JStr []), (''stepId'', JStr [])]"

definition failure_goto_empty_typed :: failure_action where
  "failure_goto_empty_typed = FailureAction ''next'' FA_GOTO (Some []) (Some []) None None None []"

definition failure_retry_one_empty :: json where
  "failure_retry_one_empty = JObj [(''name'', JStr ''again''), (''type'', JStr ''retry''),
     (''workflowId'', JStr []), (''stepId'', JStr ''s1''), (''retryAfter'', JInt 2)]"

definition failure_retry_one_empty_typed :: failure_action where
  "failure_retry_one_empty_typed =
     FailureAction ''again'' FA_RETRY (Some []) (Some ''s1'') (Some 2) None None []"

definition doc_empty_criteria_typed :: arazzo_specification where
  "doc_empty_criteria_typed =
     ArazzoSpecification ''1.0.0'' (Info ''Pets'' None None ''1.0.0'' [])
      [SourceDescription ''petstore'' ''https://petstore.example/openapi.json'' (Some OPENAPI) []]
      [Workflow ''getPet'' None None None None
        [Step ''s1'' None (Some ''getPetById'') None None None None None None
          (Some [Inl (FailureAction ''stop'' FA_END None None None None (Some []) [])])
          None []]
        None None None None []]
      None [(''x-custom-extension'', JStr ''some-value'')]"

definition success_action_empty_criteria :: json where
  "success_action_empty_criteria = JObj [(''name'', JStr ''stop''), (''type'', JStr ''end''),
     (''criteria'', JList [])]"

section \<open>Facts about the validators\<close>

subsection \<open>When a validator returns a value\<close>

lemma ap_Ok_iff: "ap rf rx = Ok y \<longleftrightarrow> (\<exists>f x. rf = Ok f \<and> rx = Ok x \<and> y = f x)"
  by (cases rf; cases rx) auto

lemma and_then_Ok_iff: "and_then r f = Ok y \<longleftrightarrow> (\<exists>x. r = Ok x \<and> f x = Ok y)"
  by (cases r) auto

lemma at_loc_Ok_iff: "at_loc l r = Ok x \<longleftrightarrow> r = Ok x"
  by (cases r) auto

lemma then_v_Ok_iff: "then_v P f j = Ok y \<longleftrightarrow> (\<exists>x. P j = Ok x \<and> f x = Ok y)"
  by (simp add: then_v_def and_then_Ok_iff)

lemma fail_not_Ok: "fail t \<noteq> Ok x"
  by (simp add: fail_def)

lemma model_v_Ok_iff: "model_v F j = Ok x \<longleftrightarrow> (\<exists>kvs. j = JObj kvs \<and> F kvs = Ok x)"
  by (cases j) (auto simp: fail_def)

lemma required_Ok_iff:
  "required a n P kvs = Ok x \<longleftrightarrow> (\<exists>k v. lookup_field a n kvs = Some (k, v) \<and> P v = Ok x)"
  by (auto simp: required_def at_loc_Ok_iff split: option.splits)

lemma optional_Ok_iff:
  "optional a n P d kvs = Ok x \<longleftrightarrow>
     (lookup_field a n kvs = None \<and> x = d) \<or> (\<exists>k v. lookup_field a n kvs = Some (k, v) \<and> P v = Ok x)"
  by (auto simp: optional_def at_loc_Ok_iff split: option.splits)

lemma nullable_Ok_iff:
  "nullable P j = Ok y \<longleftrightarrow> (j = JNull \<and> y = None) \<or> (j \<noteq> JNull \<and> (\<exists>x. P j = Ok x \<and> y = Some x))"
  by (cases j) (auto simp: ap_Ok_iff)

lemma list_items_Ok_iff:
  "list_items P i js = Ok xs \<longleftrightarrow> list_all2 (\<lambda>j x. P j = Ok x) js xs"
proof (induction js arbitrary: i xs)
  case Nil
  then show ?case by auto
next
  case (Cons j js)
  then show ?case
    by (cases xs) (auto simp: ap_Ok_iff at_loc_Ok_iff)
qed

lemma min_length_Ok_iff: "min_length n xs = Ok ys \<longleftrightarrow> ys = xs \<and> n \<le> length xs"
  by (auto simp: min_length_def fail_def)

lemma list_v_Ok_iff:
  "list_v P n j = Ok xs \<longleftrightarrow> (\<exists>js. j = JList js \<and> list_all2 (\<lambda>j x. P j = Ok x) js xs \<and> n \<le> length xs)"
  by (cases j) (auto simp: fail_def and_then_Ok_iff list_items_Ok_iff min_length_Ok_iff)

lemma dict_items_Ok_iff:
  "dict_items P kvs = Ok ys \<longleftrightarrow> list_all2 (\<lambda>(k, j) (k', x). k' = k \<and> P j = Ok x) kvs ys"
proof (induction kvs arbitrary: ys)
  case Nil
  then show ?case by auto
next
  case (Cons kv kvs)
  then show ?case
    by (cases kv; cases ys) (auto simp: ap_Ok_iff at_loc_Ok_iff)
qed

lemma dict_v_Ok_iff:
  "dict_v P j = Ok ys \<longleftrightarrow> (\<exists>kvs. j = JObj kvs \<and> list_all2 (\<lambda>(k, j) (k', x). k' = k \<and> P j = Ok x) kvs ys)"
  by (cases j) (auto simp: fail_def dict_items_Ok_iff)

lemma union_v_Ok:
  "union_v env la A lb B j = Ok y \<Longrightarrow> (\<exists>a. A j = Ok a \<and> y = Inl a) \<or> (\<exists>b. B j = Ok b \<and> y = Inr b)"
  by (auto simp: union_v_def split: res.splits if_splits)

lemma collect_duplicates_Nil_iff:
  "collect_duplicates seen xs = [] \<longleftrightarrow> distinct xs \<and> set xs \<inter> seen = {}"
  by (induction xs arbitrary: seen) auto

lemma validate_unique_items_Ok_iff:
  "validate_unique_items str_of v field_name = Ok u \<longleftrightarrow> distinct v \<and> u = v"
  by (auto simp: validate_unique_items_def Let_def collect_duplicates_Nil_iff fail_def split: option.splits)

lemma unique_models_Ok_iff:
  "unique_models field_name v = Ok u \<longleftrightarrow> u = v \<and> (case v of None \<Rightarrow> True | Some xs \<Rightarrow> distinct xs)"
  by (auto simp: unique_models_def and_then_Ok_iff validate_unique_items_Ok_iff split: option.splits)

lemma unique_strs_Ok_iff:
  "unique_strs field_name v = Ok u \<longleftrightarrow> u = v \<and> (case v of None \<Rightarrow> True | Some xs \<Rightarrow> distinct xs)"
  by (auto simp: unique_strs_def and_then_Ok_iff validate_unique_items_Ok_iff split: option.splits)

lemma length_card_iff: "length xs = card (set xs) \<longleftrightarrow> distinct xs"
  by (metis card_distinct distinct_card)

lemma unique_ids_Ok_iff:
  "unique_ids env field_name ident v = Ok u \<longleftrightarrow> u = v \<and> distinct (map ident v)"
  unfolding unique_ids_def Let_def length_card_iff by (auto simp: fail_def)

lemma postI: "(\<And>j x. P j = Ok x \<Longrightarrow> Q x) \<Longrightarrow> post P Q"
  by (simp add: post_def)

lemma postD: "post P Q \<Longrightarrow> P j = Ok x \<Longrightarrow> Q x"
  by (auto simp: post_def)

lemma post_then_v: "post P Q \<Longrightarrow> (\<And>x y. Q x \<Longrightarrow> f x = Ok y \<Longrightarrow> R y) \<Longrightarrow> post (then_v P f) R"
  by (auto simp: post_def then_v_Ok_iff)

lemma post_nullable: "post P Q \<Longrightarrow> post (nullable P) (pred_option Q)"
  by (auto simp: post_def nullable_Ok_iff)

lemma post_list_v: "post P Q \<Longrightarrow> post (list_v P n) (\<lambda>xs. list_all Q xs \<and> n \<le> length xs)"
  by (auto simp: post_def list_v_Ok_iff list_all2_conv_all_nth list_all_length)

lemma post_dict_v: "post P Q \<Longrightarrow> post (dict_v P) (list_all (\<lambda>kv. Q (snd kv)))"
  by (auto simp: post_def dict_v_Ok_iff list_all2_conv_all_nth list_all_length)

lemma post_union_v: "post A Q \<Longrightarrow> post B R \<Longrightarrow> post (union_v env la A lb B) (pred_sum Q R)"
  by (auto simp: post_def dest!: union_v_Ok)

lemma required_post: "post P Q \<Longrightarrow> required a n P kvs = Ok x \<Longrightarrow> Q x"
  by (auto simp: post_def required_Ok_iff)

lemma optional_post: "post P Q \<Longrightarrow> Q d \<Longrightarrow> optional a n P d kvs = Ok x \<Longrightarrow> Q x"
  by (auto simp: post_def optional_Ok_iff)

lemma check_conditional_version_Ok: "check_conditional_version x = Ok y \<Longrightarrow> y = x"
  by (auto simp: check_conditional_version_def fail_def split: if_splits)

lemma check_dependent_required_Ok: "check_dependent_required x = Ok y \<Longrightarrow> y = x"
  by (auto simp: check_dependent_required_def fail_def split: if_splits)

lemma check_conditional_goto_Ok: "check_conditional_goto x = Ok y \<Longrightarrow> y = x"
  by (auto simp: check_conditional_goto_def fail_def split: if_splits)

lemma check_conditional_goto_retry_Ok: "check_conditional_goto_retry x = Ok y \<Longrightarrow> y = x"
  by (auto simp: check_conditional_goto_retry_def fail_def split: if_splits)

lemma check_conditional_step_target_Ok: "check_conditional_step_target x = Ok y \<Longrightarrow> y = x"
  by (auto simp: check_conditional_step_target_def Let_def fail_def split: if_splits option.splits list.splits)

lemma post_validate_CriterionExpressionType:
  "post validate_CriterionExpressionType (\<lambda>e. check_conditional_version e = Ok e)"
  by (auto simp: post_def validate_CriterionExpressionType_def then_v_Ok_iff
      dest: check_conditional_version_Ok)

lemma post_criterion_type:
  "post (union_v env ''ConditionType'' (enum_v ConditionType)
      ''CriterionExpressionType'' validate_CriterionExpressionType)
    (\<lambda>t. case t of Inl t \<Rightarrow> True | Inr e \<Rightarrow> check_conditional_version e = Ok e)"
  using post_validate_CriterionExpressionType
  by (auto simp: post_def dest!: union_v_Ok)

lemma post_Criterion_model:
  "post (Criterion_model env)
     (\<lambda>c. case crit_type c of Inl t \<Rightarrow> True | Inr e \<Rightarrow> check_conditional_version e = Ok e)"
proof (rule postI)
  fix j c assume "Criterion_model env j = Ok c"
  then obtain kvs t where "optional ''type'' ''type''
          (union_v env ''ConditionType'' (enum_v ConditionType)
             ''CriterionExpressionType'' validate_CriterionExpressionType)
          (Inl SIMPLE) kvs = Ok t" "crit_type c = t"
    by (auto simp: Criterion_model_def model_v_Ok_iff ap_Ok_iff)
  then show "case crit_type c of Inl t \<Rightarrow> True | Inr e \<Rightarrow> check_conditional_version e = Ok e"
    by (auto simp: optional_Ok_iff dest: postD[OF post_criterion_type])
qed

lemma post_validate_Criterion: "post (validate_Criterion env) criterion_valid"
  unfolding validate_Criterion_def criterion_valid_def
  by (rule post_then_v[OF post_Criterion_model]) (auto dest: check_dependent_required_Ok)

lemma post_criteria_field:
  "post (then_v (nullable (list_v (validate_Criterion env) n)) (unique_models f)) (criteria_valid n)"
  by (rule post_then_v[OF post_nullable[OF post_list_v[OF post_validate_Criterion]]])
    (auto simp: unique_models_Ok_iff criteria_valid_def split: option.splits)

lemma criteria_valid_None: "criteria_valid n None"
  by (simp add: criteria_valid_def)

lemma SuccessAction_model_criteria:
  "SuccessAction_model env j = Ok a \<Longrightarrow> criteria_valid 1 (sa_criteria a)"
  by (auto simp: SuccessAction_model_def model_v_Ok_iff ap_Ok_iff optional_Ok_iff criteria_valid_None
      dest: postD[OF post_criteria_field])

lemma post_validate_SuccessAction: "post (validate_SuccessAction env) success_action_valid"
proof (rule postI)
  fix j a assume "validate_SuccessAction env j = Ok a"
  then obtain a' where m: "SuccessAction_model env j = Ok a'" and c: "check_conditional_goto a' = Ok a"
    by (auto simp: validate_SuccessAction_def then_v_Ok_iff)
  have "a' = a" using check_conditional_goto_Ok[OF c] by simp
  with m c show "success_action_valid a"
    using SuccessAction_model_criteria[of env j a] by (simp add: success_action_valid_def)
qed

lemma post_ge0: "post (then_v P ge0) (\<lambda>x. 0 \<le> x)"
  by (auto simp: post_def then_v_Ok_iff ge0_def fail_def split: if_splits)

lemma FailureAction_model_fields:
  assumes "FailureAction_model env j = Ok a"
  shows "criteria_valid 0 (fa_criteria a)"
    and "case fa_retry_after a of None \<Rightarrow> True | Some r \<Rightarrow> 0 \<le> r"
    and "case fa_retry_limit a of None \<Rightarrow> True | Some n \<Rightarrow> 0 \<le> n"
proof -
  from assms obtain kvs ra rl cs where
    ra: "optional ''retryAfter'' ''retry_after'' (nullable (then_v (float_v env) ge0)) None kvs = Ok ra"
    and rl: "optional ''retryLimit'' ''retry_limit'' (nullable (then_v (int_v env) ge0)) None kvs = Ok rl"
    and cs: "optional ''criteria'' ''criteria''
          (then_v (nullable (list_v (validate_Criterion env) 0)) (unique_models ''criteria''))
          None kvs = Ok cs"
    and a: "fa_retry_after a = ra" "fa_retry_limit a = rl" "fa_criteria a = cs"
    by (auto simp: FailureAction_model_def model_v_Ok_iff ap_Ok_iff)
  show "criteria_valid 0 (fa_criteria a)"
    using cs a by (auto simp: optional_Ok_iff criteria_valid_None dest: postD[OF post_criteria_field])
  show "case fa_retry_after a of None \<Rightarrow> True | Some r \<Rightarrow> 0 \<le> r"
    using ra a by (auto simp: optional_Ok_iff nullable_Ok_iff dest: postD[OF post_ge0] split: option.splits)
  show "case fa_retry_limit a of None \<Rightarrow> True | Some n \<Rightarrow> 0 \<le> n"
    using rl a by (auto simp: optional_Ok_iff nullable_Ok_iff dest: postD[OF post_ge0] split: option.splits)
qed

lemma post_validate_FailureAction: "post (validate_FailureAction env) failure_action_valid"
proof (rule postI)
  fix j a assume "validate_FailureAction env j = Ok a"
  then obtain a' where m: "FailureAction_model env j = Ok a'" and c: "check_conditional_goto_retry a' = Ok a"
    by (auto simp: validate_FailureAction_def then_v_Ok_iff)
  have "a' = a" using check_conditional_goto_retry_Ok[OF c] by simp
  with m c show "failure_action_valid a"
    using FailureAction_model_fields[of env j a] by (simp add: failure_action_valid_def)
qed

lemma list_all_inl_items: "list_all (pred_sum Q R) xs \<Longrightarrow> list_all Q (inl_items xs)"
  by (induction xs rule: inl_items.induct) auto

lemma post_success_actions_field:
  "post (then_v (nullable (list_v (success_action_or_reusable env) 0)) (unique_models f))
     success_actions_valid"
proof -
  have u: "post (success_action_or_reusable env) (pred_sum success_action_valid (\<lambda>r. True))"
    unfolding success_action_or_reusable_def
    by (rule post_union_v[OF post_validate_SuccessAction]) (simp add: post_def)
  show ?thesis
    by (rule post_then_v[OF post_nullable[OF post_list_v[OF u]]])
      (auto simp: unique_models_Ok_iff success_actions_valid_def unique_list_def opt_items_def
        list_all_inl_items split: option.splits)
qed

lemma post_failure_actions_field:
  "post (then_v (nullable (list_v (failure_action_or_reusable env) 0)) (unique_models f))
     failure_actions_valid"
proof -
  have u: "post (failure_action_or_reusable env) (pred_sum failure_action_valid (\<lambda>r. True))"
    unfolding failure_action_or_reusable_def
    by (rule post_union_v[OF post_validate_FailureAction]) (simp add: post_def)
  show ?thesis
    by (rule post_then_v[OF post_nullable[OF post_list_v[OF u]]])
      (auto simp: unique_models_Ok_iff failure_actions_valid_def unique_list_def opt_items_def
        list_all_inl_items split: option.splits)
qed

lemma post_unique_models_field:
  "post (then_v (nullable (list_v P n)) (unique_models f)) unique_list"
  by (auto simp: post_def then_v_Ok_iff unique_models_Ok_iff unique_list_def)

lemma post_unique_strs_field:
  "post (then_v (nullable (list_v P n)) (unique_strs f)) unique_list"
  by (auto simp: post_def then_v_Ok_iff unique_strs_Ok_iff unique_list_def)

lemma post_validate_RequestBody: "post validate_RequestBody (\<lambda>b. unique_list (rb_replacements b))"
  by (auto simp: post_def validate_RequestBody_def model_v_Ok_iff ap_Ok_iff optional_Ok_iff
      unique_list_def dest: postD[OF post_unique_models_field])

lemma valid_None:
  "unique_list None" "success_actions_valid None" "failure_actions_valid None"
  by (simp_all add: unique_list_def success_actions_valid_def failure_actions_valid_def opt_items_def)

lemma Step_model_fields:
  assumes "Step_model env j = Ok s"
  shows "unique_list (step_parameters s)"
    and "case step_request_body s of None \<Rightarrow> True | Some b \<Rightarrow> unique_list (rb_replacements b)"
    and "criteria_valid 1 (step_success_criteria s)"
    and "success_actions_valid (step_on_success s)"
    and "failure_actions_valid (step_on_failure s)"
proof -
  from assms obtain kvs ps rb sc os ofl where
    ps: "optional ''parameters'' ''parameters''
          (then_v (nullable (list_v (parameter_or_reusable env) 0))
             (unique_models ''parameters'')) None kvs = Ok ps"
    and rb: "optional ''requestBody'' ''request_body'' (nullable validate_RequestBody) None kvs = Ok rb"
    and sc: "optional ''successCriteria'' ''success_criteria''
          (then_v (nullable (list_v (validate_Criterion env) 1))
             (unique_models ''success_criteria'')) None kvs = Ok sc"
    and os: "optional ''onSuccess'' ''on_success''
          (then_v (nullable (list_v (success_action_or_reusable env) 0))
             (unique_models ''on_success'')) None kvs = Ok os"
    and ofl: "optional ''onFailure'' ''on_failure''
          (then_v (nullable (list_v (failure_action_or_reusable env) 0))
             (unique_models ''on_failure'')) None kvs = Ok ofl"
    and s: "step_parameters s = ps" "step_request_body s = rb" "step_success_criteria s = sc"
      "step_on_success s = os" "step_on_failure s = ofl"
    by (auto simp: Step_model_def model_v_Ok_iff ap_Ok_iff)
  show "unique_list (step_parameters s)"
    using ps s by (auto simp: optional_Ok_iff valid_None dest: postD[OF post_unique_models_field])
  show "case step_request_body s of None \<Rightarrow> True | Some b \<Rightarrow> unique_list (rb_replacements b)"
    using rb s by (auto simp: optional_Ok_iff nullable_Ok_iff dest: postD[OF post_validate_RequestBody]
        split: option.splits)
  show "criteria_valid 1 (step_success_criteria s)"
    using sc s by (auto simp: optional_Ok_iff criteria_valid_None dest: postD[OF post_criteria_field])
  show "success_actions_valid (step_on_success s)"
    using os s by (auto simp: optional_Ok_iff valid_None dest: postD[OF post_success_actions_field])
  show "failure_actions_valid (step_on_failure s)"
    using ofl s by (auto simp: optional_Ok_iff valid_None dest: postD[OF post_failure_actions_field])
qed

lemma post_validate_Step: "post (validate_Step env) step_valid"
proof (rule postI)
  fix j s assume "validate_Step env j = Ok s"
  then obtain s' where m: "Step_model env j = Ok s'" and c: "check_conditional_step_target s' = Ok s"
    by (auto simp: validate_Step_def then_v_Ok_iff)
  have "s' = s" using check_conditional_step_target_Ok[OF c] by simp
  with m c show "step_valid s"
    using Step_model_fields[of env j s] by (simp add: step_valid_def)
qed

lemma post_steps_field:
  "post (then_v (list_v (validate_Step env) 1) (validate_steps_uniqueness env))
     (\<lambda>ss. list_all step_valid ss \<and> 1 \<le> length ss \<and> distinct (map step_id ss))"
  by (rule post_then_v[OF post_list_v[OF post_validate_Step]])
    (auto simp: validate_steps_uniqueness_def unique_ids_Ok_iff)

lemma post_validate_Workflow: "post (validate_Workflow env) workflow_valid"
proof (rule postI)
  fix j w assume "validate_Workflow env j = Ok w"
  then obtain kvs dep ss sa fa ps where
    dep: "optional ''dependsOn'' ''depends_on''
          (then_v (nullable (list_v str_v 0)) (unique_strs ''depends_on'')) None kvs = Ok dep"
    and ss: "required ''steps'' ''steps''
          (then_v (list_v (validate_Step env) 1) (validate_steps_uniqueness env)) kvs = Ok ss"
    and sa: "optional ''successActions'' ''success_actions''
          (then_v (nullable (list_v (success_action_or_reusable env) 0))
             (unique_models ''success_actions'')) None kvs = Ok sa"
    and fa: "optional ''failureActions'' ''failure_actions''
          (then_v (nullable (list_v (failure_action_or_reusable env) 0))
             (unique_models ''failure_actions'')) None kvs = Ok fa"
    and ps: "optional ''parameters'' ''parameters''
          (then_v (nullable (list_v (parameter_or_reusable env) 0))
             (unique_models ''parameters'')) None kvs = Ok ps"
    and w: "wf_depends_on w = dep" "wf_steps w = ss" "wf_success_actions w = sa"
      "wf_failure_actions w = fa" "wf_parameters w = ps"
    by (auto simp: validate_Workflow_def model_v_Ok_iff ap_Ok_iff)
  have 1: "unique_list (wf_depends_on w)"
    using dep w by (auto simp: optional_Ok_iff valid_None dest: postD[OF post_unique_strs_field])
  have 2: "list_all step_valid (wf_steps w) \<and> 1 \<le> length (wf_steps w) \<and> distinct (map step_id (wf_steps w))"
    using required_post[OF post_steps_field ss] w by simp
  have 3: "success_actions_valid (wf_success_actions w)"
    using sa w by (auto simp: optional_Ok_iff valid_None dest: postD[OF post_success_actions_field])
  have 4: "failure_actions_valid (wf_failure_actions w)"
    using fa w by (auto simp: optional_Ok_iff valid_None dest: postD[OF post_failure_actions_field])
  have 5: "unique_list (wf_parameters w)"
    using ps w by (auto simp: optional_Ok_iff valid_None dest: postD[OF post_unique_models_field])
  show "workflow_valid w"
    using 1 2 3 4 5 by (simp add: workflow_valid_def)
qed

lemma post_validate_Components: "post (validate_Components env) components_valid"
proof (rule postI)
  fix j c assume "validate_Components env j = Ok c"
  then obtain kvs sa fa where
    sa: "optional ''successActions'' ''success_actions''
          (nullable (dict_v (validate_SuccessAction env))) None kvs = Ok sa"
    and fa: "optional ''failureActions'' ''failure_actions''
          (nullable (dict_v (validate_FailureAction env))) None kvs = Ok fa"
    and c: "comp_success_actions c = sa" "comp_failure_actions c = fa"
    by (auto simp: validate_Components_def model_v_Ok_iff ap_Ok_iff)
  have 1: "list_all (\<lambda>kv. success_action_valid (snd kv)) (opt_items (comp_success_actions c))"
    using sa c postD[OF post_nullable[OF post_dict_v[OF post_validate_SuccessAction]]]
    by (fastforce simp: optional_Ok_iff opt_items_def split: option.splits)
  have 2: "list_all (\<lambda>kv. failure_action_valid (snd kv)) (opt_items (comp_failure_actions c))"
    using fa c postD[OF post_nullable[OF post_dict_v[OF post_validate_FailureAction]]]
    by (fastforce simp: optional_Ok_iff opt_items_def split: option.splits)
  show "components_valid c"
    using 1 2 by (simp add: components_valid_def)
qed

lemma post_validate_SourceDescription: "post validate_SourceDescription source_description_valid"
  by (auto simp: post_def validate_SourceDescription_def model_v_Ok_iff ap_Ok_iff required_Ok_iff
      then_v_Ok_iff pattern_def validate_uri_reference_def fail_def source_description_valid_def
      split: if_splits)

lemma validated_doc_valid:
  assumes "validate_arazzo_data env data = Ok d"
  shows "doc_valid d"
proof -
  from assms obtain kvs v sds ws co where
    v: "required ''arazzo'' ''arazzo'' (then_v str_v (pattern matches_arazzo_version)) kvs = Ok v"
    and sds: "required ''sourceDescriptions'' ''source_descriptions''
          (then_v (list_v validate_SourceDescription 1)
             (validate_source_descriptions_uniqueness env)) kvs = Ok sds"
    and ws: "required ''workflows'' ''workflows''
          (then_v (list_v (validate_Workflow env) 1) (validate_workflows_uniqueness env)) kvs = Ok ws"
    and co: "optional ''components'' ''components'' (nullable (validate_Components env)) None kvs = Ok co"
    and d: "doc_arazzo d = v" "doc_source_descriptions d = sds" "doc_workflows d = ws"
      "doc_components d = co"
    by (auto simp: validate_arazzo_data_def validate_ArazzoSpecification_def model_v_Ok_iff ap_Ok_iff)
  have 1: "matches_arazzo_version (doc_arazzo d)"
    using v d by (auto simp: required_Ok_iff then_v_Ok_iff pattern_def fail_def split: if_splits)
  have psd: "post (then_v (list_v validate_SourceDescription 1) (validate_source_descriptions_uniqueness env))
     (\<lambda>ss. list_all source_description_valid ss \<and> 1 \<le> length ss \<and> distinct (map sd_name ss))"
    by (rule post_then_v[OF post_list_v[OF post_validate_SourceDescription]])
      (auto simp: validate_source_descriptions_uniqueness_def unique_ids_Ok_iff)
  have pws: "post (then_v (list_v (validate_Workflow env) 1) (validate_workflows_uniqueness env))
     (\<lambda>ss. list_all workflow_valid ss \<and> 1 \<le> length ss \<and> distinct (map wf_workflow_id ss))"
    by (rule post_then_v[OF post_list_v[OF post_validate_Workflow]])
      (auto simp: validate_workflows_uniqueness_def unique_ids_Ok_iff)
  have 2: "list_all source_description_valid (doc_source_descriptions d) \<and>
      1 \<le> length (doc_source_descriptions d) \<and> distinct (map sd_name (doc_source_descriptions d))"
    using required_post[OF psd sds] d by simp
  have 3: "list_all workflow_valid (doc_workflows d) \<and>
      1 \<le> length (doc_workflows d) \<and> distinct (map wf_workflow_id (doc_workflows d))"
    using required_post[OF pws ws] d by simp
  have 4: "case doc_components d of None \<Rightarrow> True | Some c \<Rightarrow> components_valid c"
    using co d by (auto simp: optional_Ok_iff nullable_Ok_iff dest: postD[OF post_validate_Components]
        split: option.splits)
  show ?thesis
    using 1 2 3 4 by (simp add: doc_valid_def)
qed

subsection \<open>When a validator rejects\<close>

lemma rejects_mono: "rejects r E \<Longrightarrow> F \<subseteq> E \<Longrightarrow> rejects r F"
  by (cases r) auto

lemma rejects_fail: "rejects (fail t) {VErr t []}"
  by (simp add: fail_def)

lemma rejects_at_loc: "rejects r E \<Longrightarrow> rejects (at_loc l r) (outer l ` E)"
  by (cases r) auto

lemma rejects_ap1: "rejects rf E \<Longrightarrow> rejects (ap rf rx) E"
  by (cases rf; cases rx) auto

lemma rejects_ap2: "rejects rx E \<Longrightarrow> rejects (ap rf rx) E"
  by (cases rf; cases rx) auto

lemma rejects_and_then: "rejects r E \<Longrightarrow> rejects (and_then r f) E"
  by (cases r) auto

lemma rejects_then_v: "rejects (P j) E \<Longrightarrow> rejects (then_v P f j) E"
  by (simp add: then_v_def rejects_and_then)

lemma rejects_list_items:
  "k < length js \<Longrightarrow> rejects (P (js ! k)) E \<Longrightarrow> rejects (list_items P i js) (outer (Idx (i + k)) ` E)"
proof (induction js arbitrary: i k)
  case Nil
  then show ?case by simp
next
  case (Cons j js)
  show ?case
  proof (cases k)
    case 0
    with Cons.prems show ?thesis
      by (auto intro!: rejects_ap1[OF rejects_ap2[OF rejects_at_loc]])
  next
    case (Suc m)
    with Cons.prems have "rejects (list_items P (Suc i) js) (outer (Idx (Suc i + m)) ` E)"
      by (intro Cons.IH) auto
    with Suc show ?thesis
      by (auto intro: rejects_ap2)
  qed
qed

lemma rejects_list_v:
  "raw_item k j = Some x \<Longrightarrow> rejects (P x) E \<Longrightarrow> rejects (list_v P n j) (outer (Idx k) ` E)"
  using rejects_list_items[of k _ P E 0]
  by (cases j) (auto simp: raw_item_def intro!: rejects_and_then split: if_splits)

lemma rejects_required:
  "lookup_field a n kvs = Some (k, v) \<Longrightarrow> rejects (P v) E \<Longrightarrow>
   rejects (required a n P kvs) (outer (Key k) ` E)"
  by (simp add: required_def rejects_at_loc)

lemma rejects_optional:
  "lookup_field a n kvs = Some (k, v) \<Longrightarrow> rejects (P v) E \<Longrightarrow>
   rejects (optional a n P d kvs) (outer (Key k) ` E)"
  by (simp add: optional_def rejects_at_loc)

lemma rejects_Workflow_steps:
  assumes "raw_field ''steps'' ''steps'' wo = Some (ks, ss)"
    and "raw_item i ss = Some sj"
    and "rejects (validate_Step env sj) E"
  shows "rejects (validate_Workflow env wo) (outer (Key ks) ` outer (Idx i) ` E)"
proof -
  from assms(1) obtain kvs where wo: "wo = JObj kvs"
    and l: "lookup_field ''steps'' ''steps'' kvs = Some (ks, ss)"
    by (auto simp: raw_field_def split: json.splits)
  have "rejects (then_v (list_v (validate_Step env) 1) (validate_steps_uniqueness env) ss)
     (outer (Idx i) ` E)"
    by (intro rejects_then_v rejects_list_v[OF assms(2)] assms(3))
  then have "rejects (required ''steps'' ''steps''
          (then_v (list_v (validate_Step env) 1) (validate_steps_uniqueness env)) kvs)
     (outer (Key ks) ` outer (Idx i) ` E)"
    by (rule rejects_required[OF l])
  then show ?thesis
    unfolding wo validate_Workflow_def model_v.simps
    by (blast intro: rejects_ap1 rejects_ap2)
qed

lemma rejects_doc_step:
  assumes "raw_step data w i = Some (loc, sj)"
    and "rejects (validate_Step env sj) E"
  shows "rejects (validate_arazzo_data env data) (prefix_loc loc ` E)"
proof -
  from assms(1) obtain kw ws wo ks ss where
    f1: "raw_field ''workflows'' ''workflows'' data = Some (kw, ws)"
    and i1: "raw_item w ws = Some wo"
    and f2: "raw_field ''steps'' ''steps'' wo = Some (ks, ss)"
    and i2: "raw_item i ss = Some sj"
    and loc: "loc = [Key kw, Idx w, Key ks, Idx i]"
    by (auto simp: raw_step_def split: option.splits)
  from f1 obtain kvs where data: "data = JObj kvs"
    and l: "lookup_field ''workflows'' ''workflows'' kvs = Some (kw, ws)"
    by (auto simp: raw_field_def split: json.splits)
  let ?E = "outer (Key kw) ` outer (Idx w) ` outer (Key ks) ` outer (Idx i) ` E"
  have "rejects (validate_Workflow env wo) (outer (Key ks) ` outer (Idx i) ` E)"
    by (rule rejects_Workflow_steps[OF f2 i2 assms(2)])
  then have "rejects (then_v (list_v (validate_Workflow env) 1) (validate_workflows_uniqueness env) ws)
     (outer (Idx w) ` outer (Key ks) ` outer (Idx i) ` E)"
    by (intro rejects_then_v rejects_list_v[OF i1])
  then have "rejects (required ''workflows'' ''workflows''
          (then_v (list_v (validate_Workflow env) 1) (validate_workflows_uniqueness env)) kvs) ?E"
    by (rule rejects_required[OF l])
  then have "rejects (validate_arazzo_data env data) ?E"
    unfolding data validate_arazzo_data_def validate_ArazzoSpecification_def model_v.simps
    by (blast intro: rejects_ap1 rejects_ap2)
  moreover have "?E = prefix_loc loc ` E"
    by (auto simp: loc prefix_loc_def outer_def image_iff)
  ultimately show ?thesis by simp
qed

lemma validate_Step_eq: "Step_model env j = Ok s \<Longrightarrow> validate_Step env j = check_conditional_step_target s"
  by (simp add: validate_Step_def then_v_def)

lemma step_target_Ok_length:
  "check_conditional_step_target s = Ok s' \<Longrightarrow> length (present_targets s) = 1"
  by (auto simp: check_conditional_step_target_def present_targets_def Let_def fail_def
      split: if_splits)

lemma doc_steps_valid: "doc_valid d \<Longrightarrow> s \<in> set (doc_steps d) \<Longrightarrow> step_valid s"
  by (auto simp: doc_valid_def doc_steps_def workflow_valid_def list_all_iff)

section \<open>The properties of the specification\<close>

subsection \<open>C1: one target for every step\<close>

lemma validated_steps_one_target:
  assumes "validate_arazzo_data env data = Ok d" and "s \<in> set (doc_steps d)"
  shows "length (present_targets s) = 1"
proof -
  have "step_valid s"
    using assms validated_doc_valid doc_steps_valid by blast
  then show ?thesis
    by (auto simp: step_valid_def dest: step_target_Ok_length)
qed

lemma validate_Step_missing_target:
  "Step_model env sj = Ok s \<Longrightarrow> present_targets s = [] \<Longrightarrow>
   validate_Step env sj = fail Step_missing_target_type"
  by (simp add: validate_Step_eq check_conditional_step_target_def present_targets_def Let_def)

lemma validate_Step_exclusive_target:
  "Step_model env sj = Ok s \<Longrightarrow> 1 < length (present_targets s) \<Longrightarrow>
   validate_Step env sj = fail Step_exclusive_target_type"
  by (auto simp: validate_Step_eq check_conditional_step_target_def present_targets_def Let_def)

text \<open>
  The error of a step, seen from the document: the document does not validate, and a
  \<open>ValidationError\<close> of the document has the error at the step.
\<close>

lemma document_reports_step_error:
  assumes "raw_step data w i = Some (loc, sj)" and "validate_Step env sj = fail t"
  shows "(\<forall>d. validate_arazzo_data env data \<noteq> Ok d) \<and>
         (\<forall>es. validate_arazzo_data env data = Invalid es \<longrightarrow> VErr t loc \<in> set es)"
proof -
  have "rejects (validate_Step env sj) {VErr t []}"
    by (simp add: assms(2) rejects_fail)
  then have "rejects (validate_arazzo_data env data) (prefix_loc loc ` {VErr t []})"
    by (rule rejects_doc_step[OF assms(1)])
  then have "rejects (validate_arazzo_data env data) {VErr t loc}"
    by (simp add: prefix_loc_def)
  then show ?thesis
    by (cases "validate_arazzo_data env data") auto
qed

text \<open>
  C1 at a document whose first step has the same parameter twice and whose second step has
  no target (and at one whose second step has two). The step validator gives the second
  step its error, \<open>step_missing_target_type\<close> (\<open>step_exclusive_target_type\<close>), and the
  validation of the document reports neither: the \<open>TypeError\<close> of the first step's
  duplicate check leaves \<open>validate_arazzo_data\<close> before.
\<close>

theorem C1_target_error_not_reported:
  "raw_step (example_doc ''petstore'' [step_duplicate_parameters, step_no_target]) 0 1 =
     Some ([Key ''workflows'', Idx 0, Key ''steps'', Idx 1], step_no_target) \<and>
   Step_model env0 step_no_target = Ok step_no_target_typed \<and>
   present_targets step_no_target_typed = [] \<and>
   validate_Step env0 step_no_target = Invalid [VErr Step_missing_target_type []] \<and>
   validate_arazzo_data env0 (example_doc ''petstore'' [step_duplicate_parameters, step_no_target]) =
     Raised (TypeError ''unhashable type'') \<and>
   raw_step (example_doc ''petstore'' [step_duplicate_parameters, step_two_targets]) 0 1 =
     Some ([Key ''workflows'', Idx 0, Key ''steps'', Idx 1], step_two_targets) \<and>
   Step_model env0 step_two_targets = Ok step_two_targets_typed \<and>
   length (present_targets step_two_targets_typed) = 2 \<and>
   validate_Step env0 step_two_targets = Invalid [VErr Step_exclusive_target_type []] \<and>
   validate_arazzo_data env0 (example_doc ''petstore'' [step_duplicate_parameters, step_two_targets]) =
     Raised (TypeError ''unhashable type'')"
  by code_simp

subsection \<open>C2: the location tag of the parameters of an operation step\<close>

lemma operation_parameters_None_iff:
  "operation_parameters i ps = None \<longleftrightarrow> (\<forall>p. Inl p \<in> set ps \<longrightarrow> param_in p \<noteq> None)"
  by (induction i ps rule: operation_parameters.induct) auto

lemma lacks_in_Cons_Suc: "lacks_in (x # xs) (Suc m) = lacks_in xs m"
  by (simp add: lacks_in_def)

lemma operation_parameters_first:
  "first_lacking_in ps n \<Longrightarrow>
   operation_parameters i ps = Some (Parameter_in_required_for_operation (i + n))"
proof (induction i ps arbitrary: n rule: operation_parameters.induct)
  case (1 i)
  then show ?case by (simp add: first_lacking_in_def lacks_in_def)
next
  case (2 i param params)
  show ?case
  proof (cases n)
    case 0
    with 2 show ?thesis by (simp add: first_lacking_in_def lacks_in_def)
  next
    case (Suc m)
    with "2.prems" have "\<not> lacks_in (Inl param # params) 0"
      by (auto simp: first_lacking_in_def)
    then have p: "param_in param \<noteq> None"
      by (simp add: lacks_in_def)
    from "2.prems" Suc have "first_lacking_in params m"
      by (auto simp: first_lacking_in_def lacks_in_Cons_Suc dest: spec[of _ "Suc _"])
    with 2 p have "operation_parameters (Suc i) params = Some (Parameter_in_required_for_operation (Suc i + m))"
      by blast
    with p Suc show ?thesis by simp
  qed
next
  case (3 i reusable params)
  show ?case
  proof (cases n)
    case 0
    with 3 show ?thesis by (simp add: first_lacking_in_def lacks_in_def)
  next
    case (Suc m)
    from "3.prems" Suc have "first_lacking_in params m"
      by (auto simp: first_lacking_in_def lacks_in_Cons_Suc dest: spec[of _ "Suc _"])
    with 3 have "operation_parameters (Suc i) params = Some (Parameter_in_required_for_operation (Suc i + m))"
      by blast
    with Suc show ?thesis by simp
  qed
qed

lemma step_target_Ok_parameters:
  assumes "check_conditional_step_target s = Ok s'"
    and "truthy (step_operation_id s) \<or> truthy (step_operation_path s)"
    and "Inl p \<in> set (opt_items (step_parameters s))"
  shows "param_in p \<noteq> None"
proof -
  from assms(3) obtain x xs where ps: "step_parameters s = Some (x # xs)"
    by (cases "step_parameters s"; cases "the (step_parameters s)") (auto simp: opt_items_def)
  with assms(1,2) have "operation_parameters 0 (x # xs) = None"
    by (auto simp: check_conditional_step_target_def Let_def fail_def split: if_splits option.splits)
  with assms(3) ps show ?thesis
    unfolding operation_parameters_None_iff by (auto simp: opt_items_def)
qed

lemma step_target_first_lacking:
  assumes "length (present_targets s) = 1"
    and "truthy (step_operation_id s) \<or> truthy (step_operation_path s)"
    and "first_lacking_in (opt_items (step_parameters s)) n"
  shows "check_conditional_step_target s = fail (Parameter_in_required_for_operation n)"
proof -
  from assms(3) obtain x xs where ps: "step_parameters s = Some (x # xs)"
    by (cases "step_parameters s"; cases "the (step_parameters s)")
      (auto simp: opt_items_def first_lacking_in_def lacks_in_def)
  with assms(3) have "operation_parameters 0 (x # xs) = Some (Parameter_in_required_for_operation n)"
    using operation_parameters_first[of "x # xs" n 0] by (simp add: opt_items_def)
  with assms(1,2) ps show ?thesis
    by (auto simp: check_conditional_step_target_def Let_def present_targets_def split: if_splits)
qed

text \<open>
  C2, as amended. In a document that validates, every step whose \<open>operationId\<close> or
  \<open>operationPath\<close> is a non-empty string has a location tag on every plain \<open>Parameter\<close> of
  its parameters. A step whose fields are valid, with exactly one target present, that being
  a non-empty \<open>operationId\<close> or \<open>operationPath\<close>, and whose first plain \<open>Parameter\<close>
  without a location tag is at index \<open>n\<close>, fails its validation with the single error
  \<open>parameter_in_required_for_operation\<close> whose \<open>parameter_index\<close> is \<open>n\<close>; a document
  that has this step, at step \<open>i\<close> of workflow \<open>w\<close>, does not validate, and a
  \<open>ValidationError\<close> of the document has that error at that step.
\<close>

theorem C2_parameter_location:
  "(\<forall>d. validate_arazzo_data env data = Ok d \<longrightarrow>
      (\<forall>s\<in>set (doc_steps d).
         truthy (step_operation_id s) \<or> truthy (step_operation_path s) \<longrightarrow>
         (\<forall>p. Inl p \<in> set (opt_items (step_parameters s)) \<longrightarrow> param_in p \<noteq> None))) \<and>
   (Step_model env sj = Ok s \<and> length (present_targets s) = 1 \<and>
      (truthy (step_operation_id s) \<or> truthy (step_operation_path s)) \<and>
      first_lacking_in (opt_items (step_parameters s)) n \<longrightarrow>
      validate_Step env sj = fail (Parameter_in_required_for_operation n) \<and>
      (\<forall>loc. raw_step data w i = Some (loc, sj) \<longrightarrow>
         (\<forall>d. validate_arazzo_data env data \<noteq> Ok d) \<and>
         (\<forall>es. validate_arazzo_data env data = Invalid es \<longrightarrow>
            VErr (Parameter_in_required_for_operation n) loc \<in> set es)))"
proof (rule conjI)
  show "\<forall>d. validate_arazzo_data env data = Ok d \<longrightarrow>
      (\<forall>s\<in>set (doc_steps d).
         truthy (step_operation_id s) \<or> truthy (step_operation_path s) \<longrightarrow>
         (\<forall>p. Inl p \<in> set (opt_items (step_parameters s)) \<longrightarrow> param_in p \<noteq> None))"
  proof (intro allI impI ballI)
    fix d s' p
    assume "validate_arazzo_data env data = Ok d" and "s' \<in> set (doc_steps d)"
      and t: "truthy (step_operation_id s') \<or> truthy (step_operation_path s')"
      and p: "Inl p \<in> set (opt_items (step_parameters s'))"
    then have "step_valid s'"
      using validated_doc_valid doc_steps_valid by blast
    then have "check_conditional_step_target s' = Ok s'"
      by (simp add: step_valid_def)
    then show "param_in p \<noteq> None"
      using t p by (rule step_target_Ok_parameters)
  qed
next
  show "Step_model env sj = Ok s \<and> length (present_targets s) = 1 \<and>
      (truthy (step_operation_id s) \<or> truthy (step_operation_path s)) \<and>
      first_lacking_in (opt_items (step_parameters s)) n \<longrightarrow>
      validate_Step env sj = fail (Parameter_in_required_for_operation n) \<and>
      (\<forall>loc. raw_step data w i = Some (loc, sj) \<longrightarrow>
         (\<forall>d. validate_arazzo_data env data \<noteq> Ok d) \<and>
         (\<forall>es. validate_arazzo_data env data = Invalid es \<longrightarrow>
            VErr (Parameter_in_required_for_operation n) loc \<in> set es))"
  proof
    assume a: "Step_model env sj = Ok s \<and> length (present_targets s) = 1 \<and>
      (truthy (step_operation_id s) \<or> truthy (step_operation_path s)) \<and>
      first_lacking_in (opt_items (step_parameters s)) n"
    then have e: "validate_Step env sj = fail (Parameter_in_required_for_operation n)"
      by (simp add: validate_Step_eq step_target_first_lacking)
    have "\<forall>loc. raw_step data w i = Some (loc, sj) \<longrightarrow>
         (\<forall>d. validate_arazzo_data env data \<noteq> Ok d) \<and>
         (\<forall>es. validate_arazzo_data env data = Invalid es \<longrightarrow>
            VErr (Parameter_in_required_for_operation n) loc \<in> set es)"
      using document_reports_step_error[OF _ e] by blast
    with e show "validate_Step env sj = fail (Parameter_in_required_for_operation n) \<and>
      (\<forall>loc. raw_step data w i = Some (loc, sj) \<longrightarrow>
         (\<forall>d. validate_arazzo_data env data \<noteq> Ok d) \<and>
         (\<forall>es. validate_arazzo_data env data = Invalid es \<longrightarrow>
            VErr (Parameter_in_required_for_operation n) loc \<in> set es))"
      by (rule conjI)
  qed
qed

theorem C2_parameter_location_witness:
  "validate_arazzo_data env0 doc_good = Ok doc_good_typed \<and>
   list_all (\<lambda>s. (truthy (step_operation_id s) \<or> truthy (step_operation_path s)) \<and>
       list_all (\<lambda>p. case p of Inl q \<Rightarrow> param_in q \<noteq> None | Inr r \<Rightarrow> True)
         (opt_items (step_parameters s)))
     (doc_steps doc_good_typed) \<and>
   Step_model env0 step_two_untagged = Ok step_two_untagged_typed \<and>
   length (present_targets step_two_untagged_typed) = 1 \<and>
   truthy (step_operation_id step_two_untagged_typed) \<and>
   first_lacking_in (opt_items (step_parameters step_two_untagged_typed)) 0 \<and>
   validate_Step env0 step_two_untagged = fail (Parameter_in_required_for_operation 0) \<and>
   raw_step (example_doc ''petstore'' [step_two_untagged]) 0 0 =
     Some ([Key ''workflows'', Idx 0, Key ''steps'', Idx 0], step_two_untagged) \<and>
   validate_arazzo_data env0 (example_doc ''petstore'' [step_two_untagged]) =
     Invalid [VErr (Parameter_in_required_for_operation 0)
       [Key ''workflows'', Idx 0, Key ''steps'', Idx 0]] \<and>
   VErr (Parameter_in_required_for_operation 0) [Key ''workflows'', Idx 0, Key ''steps'', Idx 0]
     \<in> set [VErr (Parameter_in_required_for_operation 0)
         [Key ''workflows'', Idx 0, Key ''steps'', Idx 0]]"
proof -
  have 1: "validate_arazzo_data env0 doc_good = Ok doc_good_typed"
    by code_simp
  have 2: "list_all (\<lambda>s. truthy (step_operation_id s) \<or> truthy (step_operation_path s))
     (doc_steps doc_good_typed)"
    by code_simp
  have 3: "raw_step (example_doc ''petstore'' [step_two_untagged]) 0 0 =
     Some ([Key ''workflows'', Idx 0, Key ''steps'', Idx 0], step_two_untagged)"
    by code_simp
  have 4: "Step_model env0 step_two_untagged = Ok step_two_untagged_typed"
    by code_simp
  have 5: "length (present_targets step_two_untagged_typed) = 1"
    by code_simp
  have 6: "truthy (step_operation_id step_two_untagged_typed)"
    by code_simp
  have 7: "first_lacking_in (opt_items (step_parameters step_two_untagged_typed)) 0"
    by (simp add: first_lacking_in_def lacks_in_def opt_items_def step_two_untagged_typed_def)
  have 8: "validate_arazzo_data env0 (example_doc ''petstore'' [step_two_untagged]) =
     Invalid [VErr (Parameter_in_required_for_operation 0)
       [Key ''workflows'', Idx 0, Key ''steps'', Idx 0]]"
    by code_simp
  have 9: "list_all (\<lambda>s. list_all (\<lambda>p. case p of Inl q \<Rightarrow> param_in q \<noteq> None | Inr r \<Rightarrow> True)
         (opt_items (step_parameters s))) (doc_steps doc_good_typed)"
    using 1 2 C2_parameter_location[of env0 doc_good]
    by (auto simp: list_all_iff split: sum.splits)
  note C = C2_parameter_location[of env0 "example_doc ''petstore'' [step_two_untagged]"
      step_two_untagged step_two_untagged_typed 0 0 0]
  have 10: "validate_Step env0 step_two_untagged = fail (Parameter_in_required_for_operation 0)"
    using 4 5 6 7 C by simp
  have 11: "VErr (Parameter_in_required_for_operation 0) [Key ''workflows'', Idx 0, Key ''steps'', Idx 0]
     \<in> set [VErr (Parameter_in_required_for_operation 0)
         [Key ''workflows'', Idx 0, Key ''steps'', Idx 0]]"
    using 3 4 5 6 7 8 C by blast
  show ?thesis
    using 1 2 3 4 5 6 7 8 9 10 11 by (simp add: list_all_iff)
qed

text \<open>
  C2 as stated fails. A step with two plain parameters without a location tag has one at
  index 1, and the only error is the one of index 0. A step whose \<open>operationId\<close> is the
  empty string validates with a plain parameter that has no location tag. And behind a step
  with the same parameter twice, the step with the untagged parameters gets no error in the
  result at all.
\<close>

theorem C2_counterexample:
  "raw_step (example_doc ''petstore'' [step_two_untagged]) 0 0 =
     Some ([Key ''workflows'', Idx 0, Key ''steps'', Idx 0], step_two_untagged) \<and>
   Step_model env0 step_two_untagged = Ok step_two_untagged_typed \<and>
   truthy (step_operation_id step_two_untagged_typed) \<and>
   lacks_in (opt_items (step_parameters step_two_untagged_typed)) 1 \<and>
   validate_arazzo_data env0 (example_doc ''petstore'' [step_two_untagged]) =
     Invalid [VErr (Parameter_in_required_for_operation 0)
       [Key ''workflows'', Idx 0, Key ''steps'', Idx 0]] \<and>
   validate_arazzo_data env0 (example_doc ''petstore'' [step_empty_operation]) =
     Ok doc_empty_operation_typed \<and>
   doc_steps doc_empty_operation_typed = [step_empty_operation_typed] \<and>
   step_operation_id step_empty_operation_typed = Some [] \<and>
   lacks_in (opt_items (step_parameters step_empty_operation_typed)) 0 \<and>
   raw_step (example_doc ''petstore'' [step_duplicate_parameters, step_two_untagged]) 0 1 =
     Some ([Key ''workflows'', Idx 0, Key ''steps'', Idx 1], step_two_untagged) \<and>
   validate_arazzo_data env0 (example_doc ''petstore'' [step_duplicate_parameters, step_two_untagged]) =
     Raised (TypeError ''unhashable type'')"
  by code_simp

subsection \<open>C3: the delay of a retry\<close>

lemma validate_FailureAction_eq:
  "FailureAction_model env j = Ok a \<Longrightarrow> validate_FailureAction env j = check_conditional_goto_retry a"
  by (simp add: validate_FailureAction_def then_v_def)

lemma validate_SuccessAction_eq:
  "SuccessAction_model env j = Ok a \<Longrightarrow> validate_SuccessAction env j = check_conditional_goto a"
  by (simp add: validate_SuccessAction_def then_v_def)

lemma set_inl_items: "set (inl_items xs) = {a. Inl a \<in> set xs}"
  by (induction xs rule: inl_items.induct) auto

lemma doc_failure_actions_cases:
  assumes "a \<in> set (doc_failure_actions d)"
  shows "(\<exists>w\<in>set (doc_workflows d). Inl a \<in> set (opt_items (wf_failure_actions w)) \<or>
            (\<exists>s\<in>set (wf_steps w). Inl a \<in> set (opt_items (step_on_failure s)))) \<or>
         (\<exists>c k. doc_components d = Some c \<and> (k, a) \<in> set (opt_items (comp_failure_actions c)))"
  using assms
  by (auto simp: doc_failure_actions_def workflow_failure_actions_def set_inl_items
      split: option.splits)

lemma failure_actions_valid_member:
  "failure_actions_valid v \<Longrightarrow> Inl a \<in> set (opt_items v) \<Longrightarrow> failure_action_valid a"
  by (simp add: failure_actions_valid_def list_all_iff set_inl_items)

lemma doc_failure_actions_valid:
  assumes "doc_valid d" and "a \<in> set (doc_failure_actions d)"
  shows "failure_action_valid a"
  using doc_failure_actions_cases[OF assms(2)]
proof (elim disjE bexE exE conjE)
  fix w assume "w \<in> set (doc_workflows d)" "Inl a \<in> set (opt_items (wf_failure_actions w))"
  with assms(1) show ?thesis
    by (auto simp: doc_valid_def workflow_valid_def list_all_iff
        intro: failure_actions_valid_member)
next
  fix w s assume "w \<in> set (doc_workflows d)" "s \<in> set (wf_steps w)"
    "Inl a \<in> set (opt_items (step_on_failure s))"
  with assms(1) show ?thesis
    by (auto simp: doc_valid_def workflow_valid_def step_valid_def list_all_iff
        intro: failure_actions_valid_member)
next
  fix c k assume "doc_components d = Some c" "(k, a) \<in> set (opt_items (comp_failure_actions c))"
  with assms(1) show ?thesis
    by (auto simp: doc_valid_def components_valid_def list_all_iff)
qed

lemma retry_Ok_retry_after:
  "check_conditional_goto_retry a = Ok a' \<Longrightarrow> fa_type a = FA_RETRY \<Longrightarrow> fa_retry_after a \<noteq> None"
  by (auto simp: check_conditional_goto_retry_def fail_def split: if_splits)

lemma rejects_FailureAction_retry_after:
  assumes "lookup_field ''retryAfter'' ''retry_after'' kvs = Some (k, j)"
    and "j \<noteq> JNull" and "float_v env j = Ok r" and "r < 0"
  shows "rejects (validate_FailureAction env (JObj kvs)) {VErr Greater_than_equal [Key k]}"
proof -
  from assms(3,4) have "then_v (float_v env) ge0 j = fail Greater_than_equal"
    by (simp add: then_v_def ge0_def)
  with assms(2) have "rejects (nullable (then_v (float_v env) ge0) j) {VErr Greater_than_equal []}"
    by (cases j) (auto simp: fail_def)
  then have "rejects (optional ''retryAfter'' ''retry_after'' (nullable (then_v (float_v env) ge0)) None kvs)
      (outer (Key k) ` {VErr Greater_than_equal []})"
    by (rule rejects_optional[OF assms(1)])
  then have "rejects (FailureAction_model env (JObj kvs)) (outer (Key k) ` {VErr Greater_than_equal []})"
    unfolding FailureAction_model_def model_v.simps
    by (blast intro: rejects_ap1 rejects_ap2)
  then show ?thesis
    by (simp add: validate_FailureAction_def rejects_then_v outer_def)
qed

text \<open>
  C3, as amended. In a document that validates, every failure action of type \<open>retry\<close> has a
  \<open>retryAfter\<close>, and its value is at least 0. A failure action of type \<open>retry\<close> with no
  \<open>retryAfter\<close> is rejected: with \<open>goto_retry_missing_target\<close> when neither \<open>workflowId\<close>
  nor \<open>stepId\<close> is a non-empty string, with \<open>goto_retry_exclusive_target\<close> when both are,
  and with \<open>retry_missing_retry_after\<close> when exactly one is. A failure action whose
  \<open>retryAfter\<close> is a negative number is rejected, with an error \<open>greater_than_equal\<close> at
  that field.
\<close>

theorem C3_retry_after:
  "(\<forall>d. validate_arazzo_data env data = Ok d \<longrightarrow>
      (\<forall>a\<in>set (doc_failure_actions d).
         fa_type a = FA_RETRY \<longrightarrow> (\<exists>r. fa_retry_after a = Some r \<and> 0 \<le> r))) \<and>
   (FailureAction_model env j = Ok a \<and> fa_type a = FA_RETRY \<and> fa_retry_after a = None \<longrightarrow>
      validate_FailureAction env j =
        fail (if \<not> (truthy (fa_workflow_id a) \<or> truthy (fa_step_id a)) then
                Goto_retry_missing_target ''retry''
              else if truthy (fa_workflow_id a) \<and> truthy (fa_step_id a) then
                Goto_retry_exclusive_target ''retry''
              else Retry_missing_retry_after ''retry'')) \<and>
   (lookup_field ''retryAfter'' ''retry_after'' kvs = Some (k, v) \<and> v \<noteq> JNull \<and>
      float_v env v = Ok r \<and> r < 0 \<longrightarrow>
      rejects (validate_FailureAction env (JObj kvs)) {VErr Greater_than_equal [Key k]})"
proof (intro conjI allI impI ballI)
  fix d a'
  assume "validate_arazzo_data env data = Ok d" and "a' \<in> set (doc_failure_actions d)"
    and t: "fa_type a' = FA_RETRY"
  then have v: "failure_action_valid a'"
    using validated_doc_valid doc_failure_actions_valid by blast
  then have "fa_retry_after a' \<noteq> None"
    using t by (auto simp: failure_action_valid_def dest: retry_Ok_retry_after)
  with v show "\<exists>r. fa_retry_after a' = Some r \<and> 0 \<le> r"
    by (auto simp: failure_action_valid_def)
next
  assume "FailureAction_model env j = Ok a \<and> fa_type a = FA_RETRY \<and> fa_retry_after a = None"
  then show "validate_FailureAction env j =
        fail (if \<not> (truthy (fa_workflow_id a) \<or> truthy (fa_step_id a)) then
                Goto_retry_missing_target ''retry''
              else if truthy (fa_workflow_id a) \<and> truthy (fa_step_id a) then
                Goto_retry_exclusive_target ''retry''
              else Retry_missing_retry_after ''retry'')"
    by (simp add: validate_FailureAction_eq check_conditional_goto_retry_def)
next
  assume "lookup_field ''retryAfter'' ''retry_after'' kvs = Some (k, v) \<and> v \<noteq> JNull \<and>
      float_v env v = Ok r \<and> r < 0"
  then show "rejects (validate_FailureAction env (JObj kvs)) {VErr Greater_than_equal [Key k]}"
    by (intro rejects_FailureAction_retry_after) auto
qed

theorem C3_retry_after_witness:
  "validate_arazzo_data env0 doc_good = Ok doc_good_typed \<and>
   list_all (\<lambda>a. fa_type a = FA_RETRY \<and> (\<exists>r. fa_retry_after a = Some r \<and> 0 \<le> r))
     (doc_failure_actions doc_good_typed) \<and>
   doc_failure_actions doc_good_typed \<noteq> [] \<and>
   FailureAction_model env0 action_retry_empty_step = Ok action_retry_empty_step_typed \<and>
   fa_type action_retry_empty_step_typed = FA_RETRY \<and>
   fa_retry_after action_retry_empty_step_typed = None \<and>
   validate_FailureAction env0 action_retry_empty_step = fail (Retry_missing_retry_after ''retry'') \<and>
   lookup_field ''retryAfter'' ''retry_after''
     [(''name'', JStr ''again''), (''type'', JStr ''retry''), (''stepId'', JStr ''s1''),
      (''retryAfter'', JInt (- 1))] = Some (''retryAfter'', JInt (- 1)) \<and>
   JInt (- 1) \<noteq> JNull \<and> float_v env0 (JInt (- 1)) = Ok (- 1) \<and> (- 1 :: rat) < 0 \<and>
   rejects (validate_FailureAction env0 action_retry_negative)
     {VErr Greater_than_equal [Key ''retryAfter'']}"
proof -
  have 1: "validate_arazzo_data env0 doc_good = Ok doc_good_typed"
    by code_simp
  have 2: "list_all (\<lambda>a. fa_type a = FA_RETRY) (doc_failure_actions doc_good_typed)"
    by code_simp
  have 3: "doc_failure_actions doc_good_typed \<noteq> []"
    by code_simp
  have 4: "FailureAction_model env0 action_retry_empty_step = Ok action_retry_empty_step_typed"
    by code_simp
  have 5: "fa_type action_retry_empty_step_typed = FA_RETRY \<and>
    fa_retry_after action_retry_empty_step_typed = None \<and>
    truthy (fa_workflow_id action_retry_empty_step_typed) \<and>
    \<not> truthy (fa_step_id action_retry_empty_step_typed)"
    by code_simp
  have 6: "lookup_field ''retryAfter'' ''retry_after''
     [(''name'', JStr ''again''), (''type'', JStr ''retry''), (''stepId'', JStr ''s1''),
      (''retryAfter'', JInt (- 1))] = Some (''retryAfter'', JInt (- 1))"
    by code_simp
  have 7: "float_v env0 (JInt (- 1)) = Ok (- 1)"
    by simp
  have 8: "list_all (\<lambda>a. \<exists>r. fa_retry_after a = Some r \<and> 0 \<le> r) (doc_failure_actions doc_good_typed)"
    using 1 2 C3_retry_after[of env0 doc_good] by (simp add: list_all_iff)
  have 9: "validate_FailureAction env0 action_retry_empty_step = fail (Retry_missing_retry_after ''retry'')"
    using 4 5 C3_retry_after[of env0 doc_good action_retry_empty_step action_retry_empty_step_typed]
    by simp
  have 10: "rejects (validate_FailureAction env0 action_retry_negative)
     {VErr Greater_than_equal [Key ''retryAfter'']}"
    using 6 7 C3_retry_after[of env0 doc_good _ _ _ "''retryAfter''" "JInt (- 1)" "- 1"]
    by (simp add: action_retry_negative_def)
  show ?thesis
    using 1 2 3 4 5 6 7 8 9 10 by (simp add: list_all_iff)
qed

text \<open>
  C3 as stated fails: a failure action of type \<open>retry\<close> with no \<open>retryAfter\<close> and no
  target is rejected with \<open>goto_retry_missing_target\<close>, the check that comes first, and
  not with \<open>retry_missing_retry_after\<close>.
\<close>

theorem C3_counterexample:
  "FailureAction_model env0 action_retry_bare = Ok action_retry_bare_typed \<and>
   fa_type action_retry_bare_typed = FA_RETRY \<and>
   fa_retry_after action_retry_bare_typed = None \<and>
   validate_FailureAction env0 action_retry_bare =
     Invalid [VErr (Goto_retry_missing_target ''retry'') []]"
  by code_simp

subsection \<open>C4: the context and the version of a criterion\<close>

lemma success_actions_valid_member:
  "success_actions_valid v \<Longrightarrow> Inl a \<in> set (opt_items v) \<Longrightarrow> success_action_valid a"
  by (simp add: success_actions_valid_def list_all_iff set_inl_items)

lemma doc_success_actions_cases:
  assumes "a \<in> set (doc_success_actions d)"
  shows "(\<exists>w\<in>set (doc_workflows d). Inl a \<in> set (opt_items (wf_success_actions w)) \<or>
            (\<exists>s\<in>set (wf_steps w). Inl a \<in> set (opt_items (step_on_success s)))) \<or>
         (\<exists>c k. doc_components d = Some c \<and> (k, a) \<in> set (opt_items (comp_success_actions c)))"
  using assms
  by (auto simp: doc_success_actions_def workflow_success_actions_def set_inl_items
      split: option.splits)

lemma doc_success_actions_valid:
  assumes "doc_valid d" and "a \<in> set (doc_success_actions d)"
  shows "success_action_valid a"
  using doc_success_actions_cases[OF assms(2)]
proof (elim disjE bexE exE conjE)
  fix w assume "w \<in> set (doc_workflows d)" "Inl a \<in> set (opt_items (wf_success_actions w))"
  with assms(1) show ?thesis
    by (auto simp: doc_valid_def workflow_valid_def list_all_iff
        intro: success_actions_valid_member)
next
  fix w s assume "w \<in> set (doc_workflows d)" "s \<in> set (wf_steps w)"
    "Inl a \<in> set (opt_items (step_on_success s))"
  with assms(1) show ?thesis
    by (auto simp: doc_valid_def workflow_valid_def step_valid_def list_all_iff
        intro: success_actions_valid_member)
next
  fix c k assume "doc_components d = Some c" "(k, a) \<in> set (opt_items (comp_success_actions c))"
  with assms(1) show ?thesis
    by (auto simp: doc_valid_def components_valid_def list_all_iff)
qed

lemma criteria_valid_member:
  "criteria_valid n v \<Longrightarrow> c \<in> set (opt_items v) \<Longrightarrow> criterion_valid c"
  by (auto simp: criteria_valid_def opt_items_def list_all_iff split: option.splits)

lemma doc_criteria_cases:
  assumes "c \<in> set (doc_criteria d)"
  shows "(\<exists>s\<in>set (doc_steps d). c \<in> set (opt_items (step_success_criteria s))) \<or>
         (\<exists>a\<in>set (doc_success_actions d). c \<in> set (opt_items (sa_criteria a))) \<or>
         (\<exists>a\<in>set (doc_failure_actions d). c \<in> set (opt_items (fa_criteria a)))"
  using assms by (auto simp: doc_criteria_def)

lemma doc_criteria_valid:
  assumes "doc_valid d" and "c \<in> set (doc_criteria d)"
  shows "criterion_valid c"
  using doc_criteria_cases[OF assms(2)]
proof (elim disjE bexE)
  fix s assume "s \<in> set (doc_steps d)" "c \<in> set (opt_items (step_success_criteria s))"
  then show ?thesis
    using doc_steps_valid[OF assms(1)] by (auto simp: step_valid_def intro: criteria_valid_member)
next
  fix a assume "a \<in> set (doc_success_actions d)" "c \<in> set (opt_items (sa_criteria a))"
  then show ?thesis
    using doc_success_actions_valid[OF assms(1)]
    by (auto simp: success_action_valid_def intro: criteria_valid_member)
next
  fix a assume "a \<in> set (doc_failure_actions d)" "c \<in> set (opt_items (fa_criteria a))"
  then show ?thesis
    using doc_failure_actions_valid[OF assms(1)]
    by (auto simp: failure_action_valid_def intro: criteria_valid_member)
qed

lemma resolved_type_expression:
  "resolved_type c \<in> {''jsonpath'', ''xpath''} \<longleftrightarrow>
     (case crit_type c of Inl t \<Rightarrow> t \<in> set [CT_JSONPATH, CT_XPATH] | Inr e \<Rightarrow> True)"
proof (cases "crit_type c")
  case (Inl t)
  then show ?thesis by (cases t) (simp_all add: resolved_type_def)
next
  case (Inr e)
  then show ?thesis by (cases "cet_type e") (simp_all add: resolved_type_def)
qed

lemma criterion_valid_context:
  "criterion_valid c \<Longrightarrow> resolved_type c \<in> {''jsonpath'', ''xpath''} \<Longrightarrow> crit_context c \<noteq> None"
  unfolding resolved_type_expression
  by (auto simp: criterion_valid_def check_dependent_required_def fail_def split: if_splits)

lemma version_Ok_tokens:
  "check_conditional_version e = Ok e' \<Longrightarrow>
     (cet_type e = ET_JSONPATH \<longrightarrow> cet_version e = DRAFT_GOESSNER) \<and>
     (cet_type e = ET_XPATH \<longrightarrow> cet_version e \<in> set XPathVersion)"
  by (auto simp: check_conditional_version_def fail_def split: if_splits)

lemma validate_Criterion_eq:
  "Criterion_model env j = Ok c \<Longrightarrow> validate_Criterion env j = check_dependent_required c"
  by (simp add: validate_Criterion_def then_v_def)

lemma validate_CriterionExpressionType_eq:
  "CriterionExpressionType_model j = Ok e \<Longrightarrow>
   validate_CriterionExpressionType j = check_conditional_version e"
  by (simp add: validate_CriterionExpressionType_def then_v_def)

text \<open>
  C4. In a document that validates, every criterion whose resolved type is \<open>jsonpath\<close> or
  \<open>xpath\<close> (the plain tag, or an expression-type object) has a \<open>context\<close>; every
  expression-type object of type \<open>jsonpath\<close> has the version
  \<open>draft-goessner-dispatch-jsonpath-00\<close>, and every one of type \<open>xpath\<close> has one of
  \<open>xpath-10\<close>, \<open>xpath-20\<close>, \<open>xpath-30\<close>. A criterion of such a type with no context is
  rejected with \<open>missing_context_for_expression_type\<close>; an expression-type object with
  another version is rejected with \<open>invalid_jsonpath_version\<close>, respectively
  \<open>invalid_xpath_version\<close>.
\<close>

theorem C4_criterion_context_and_version:
  "(\<forall>d. validate_arazzo_data env data = Ok d \<longrightarrow>
      (\<forall>c\<in>set (doc_criteria d).
         (resolved_type c \<in> {''jsonpath'', ''xpath''} \<longrightarrow> crit_context c \<noteq> None) \<and>
         (\<forall>e. crit_type c = Inr e \<longrightarrow>
            (cet_type e = ET_JSONPATH \<longrightarrow> cet_version e = DRAFT_GOESSNER) \<and>
            (cet_type e = ET_XPATH \<longrightarrow> cet_version e \<in> set XPathVersion)))) \<and>
   (Criterion_model env j = Ok c \<and> resolved_type c \<in> {''jsonpath'', ''xpath''} \<and>
      crit_context c = None \<longrightarrow>
      validate_Criterion env j = fail (Missing_context_for_expression_type (resolved_type c))) \<and>
   (CriterionExpressionType_model j' = Ok e \<and> cet_type e = ET_JSONPATH \<and>
      cet_version e \<noteq> DRAFT_GOESSNER \<longrightarrow>
      validate_CriterionExpressionType j' = fail (Invalid_jsonpath_version DRAFT_GOESSNER)) \<and>
   (CriterionExpressionType_model j' = Ok e \<and> cet_type e = ET_XPATH \<and>
      cet_version e \<notin> set XPathVersion \<longrightarrow>
      validate_CriterionExpressionType j' =
        fail (Invalid_xpath_version ''xpath-10, xpath-20, xpath-30''))"
proof (intro conjI allI impI ballI)
  fix d c'
  assume v: "validate_arazzo_data env data = Ok d" and c: "c' \<in> set (doc_criteria d)"
  then have cv: "criterion_valid c'"
    using validated_doc_valid doc_criteria_valid by blast
  {
    assume "resolved_type c' \<in> {''jsonpath'', ''xpath''}"
    with cv show "crit_context c' \<noteq> None"
      by (rule criterion_valid_context)
  }
  {
    fix e' assume e: "crit_type c' = Inr e'"
    with cv have ok: "check_conditional_version e' = Ok e'"
      by (simp add: criterion_valid_def)
    {
      assume "cet_type e' = ET_JSONPATH"
      with version_Ok_tokens[OF ok] show "cet_version e' = DRAFT_GOESSNER" by simp
    }
    {
      assume "cet_type e' = ET_XPATH"
      with version_Ok_tokens[OF ok] show "cet_version e' \<in> set XPathVersion" by simp
    }
  }
next
  assume a: "Criterion_model env j = Ok c \<and> resolved_type c \<in> {''jsonpath'', ''xpath''} \<and>
      crit_context c = None"
  then have "case crit_type c of Inl t \<Rightarrow> t \<in> set [CT_JSONPATH, CT_XPATH] | Inr e \<Rightarrow> True"
    unfolding resolved_type_expression by simp
  with a show "validate_Criterion env j = fail (Missing_context_for_expression_type (resolved_type c))"
    by (simp add: validate_Criterion_eq check_dependent_required_def resolved_type_def)
next
  assume "CriterionExpressionType_model j' = Ok e \<and> cet_type e = ET_JSONPATH \<and>
      cet_version e \<noteq> DRAFT_GOESSNER"
  then show "validate_CriterionExpressionType j' = fail (Invalid_jsonpath_version DRAFT_GOESSNER)"
    by (simp add: validate_CriterionExpressionType_eq check_conditional_version_def)
next
  assume "CriterionExpressionType_model j' = Ok e \<and> cet_type e = ET_XPATH \<and>
      cet_version e \<notin> set XPathVersion"
  then show "validate_CriterionExpressionType j' =
        fail (Invalid_xpath_version ''xpath-10, xpath-20, xpath-30'')"
    by (simp add: validate_CriterionExpressionType_eq check_conditional_version_def)
qed

theorem C4_criterion_context_and_version_witness:
  "validate_arazzo_data env0 doc_good = Ok doc_good_typed \<and>
   doc_criteria doc_good_typed = [criterion_jsonpath_typed] \<and>
   resolved_type criterion_jsonpath_typed = ''jsonpath'' \<and>
   crit_context criterion_jsonpath_typed \<noteq> None \<and>
   crit_type criterion_jsonpath_typed =
     Inr (CriterionExpressionType ET_JSONPATH ''draft-goessner-dispatch-jsonpath-00'' []) \<and>
   cet_version (CriterionExpressionType ET_JSONPATH ''draft-goessner-dispatch-jsonpath-00'' []) =
     DRAFT_GOESSNER \<and>
   Criterion_model env0 criterion_no_context = Ok criterion_no_context_typed \<and>
   resolved_type criterion_no_context_typed = ''xpath'' \<and>
   crit_context criterion_no_context_typed = None \<and>
   validate_Criterion env0 criterion_no_context =
     fail (Missing_context_for_expression_type ''xpath'') \<and>
   CriterionExpressionType_model expression_type_bad_jsonpath =
     Ok (CriterionExpressionType ET_JSONPATH ''1.0'' []) \<and>
   ''1.0'' \<noteq> DRAFT_GOESSNER \<and>
   validate_CriterionExpressionType expression_type_bad_jsonpath =
     fail (Invalid_jsonpath_version DRAFT_GOESSNER) \<and>
   CriterionExpressionType_model expression_type_bad_xpath =
     Ok (CriterionExpressionType ET_XPATH ''xpath-40'' []) \<and>
   ''xpath-40'' \<notin> set XPathVersion \<and>
   validate_CriterionExpressionType expression_type_bad_xpath =
     fail (Invalid_xpath_version ''xpath-10, xpath-20, xpath-30'')"
proof -
  have 1: "validate_arazzo_data env0 doc_good = Ok doc_good_typed"
    by code_simp
  have 2: "doc_criteria doc_good_typed = [criterion_jsonpath_typed]"
    by code_simp
  have 3: "resolved_type criterion_jsonpath_typed = ''jsonpath''"
    by code_simp
  have 4: "crit_type criterion_jsonpath_typed =
     Inr (CriterionExpressionType ET_JSONPATH ''draft-goessner-dispatch-jsonpath-00'' [])"
    by code_simp
  have 5: "Criterion_model env0 criterion_no_context = Ok criterion_no_context_typed"
    by code_simp
  have 6: "resolved_type criterion_no_context_typed = ''xpath''"
    by code_simp
  have 7: "crit_context criterion_no_context_typed = None"
    by code_simp
  have 8: "CriterionExpressionType_model expression_type_bad_jsonpath =
     Ok (CriterionExpressionType ET_JSONPATH ''1.0'' [])"
    by code_simp
  have 9: "''1.0'' \<noteq> DRAFT_GOESSNER"
    by code_simp
  have 10: "CriterionExpressionType_model expression_type_bad_xpath =
     Ok (CriterionExpressionType ET_XPATH ''xpath-40'' [])"
    by code_simp
  have 11: "''xpath-40'' \<notin> set XPathVersion"
    by code_simp
  note C = C4_criterion_context_and_version
  have 12: "crit_context criterion_jsonpath_typed \<noteq> None \<and>
    cet_version (CriterionExpressionType ET_JSONPATH ''draft-goessner-dispatch-jsonpath-00'' []) =
     DRAFT_GOESSNER"
    using 1 2 3 4 C[of env0 doc_good] by simp
  have 13: "validate_Criterion env0 criterion_no_context =
     fail (Missing_context_for_expression_type ''xpath'')"
    using 5 6 7 C[of env0 doc_good criterion_no_context criterion_no_context_typed] by simp
  have 14: "validate_CriterionExpressionType expression_type_bad_jsonpath =
     fail (Invalid_jsonpath_version DRAFT_GOESSNER)"
    using 8 9 C[of env0 doc_good _ _ expression_type_bad_jsonpath
        "CriterionExpressionType ET_JSONPATH ''1.0'' []"] by simp
  have 15: "validate_CriterionExpressionType expression_type_bad_xpath =
     fail (Invalid_xpath_version ''xpath-10, xpath-20, xpath-30'')"
    using 10 11 C[of env0 doc_good _ _ expression_type_bad_xpath
        "CriterionExpressionType ET_XPATH ''xpath-40'' []"] by simp
  show ?thesis
    using 1 2 3 4 5 6 7 8 9 10 11 12 13 14 15 by simp
qed

subsection \<open>C10: targets that are the empty string\<close>

text \<open>
  C10, as amended. The target of a goto or retry action is judged by the truth value of the
  string. A success action of type \<open>goto\<close>, or a failure action of type \<open>goto\<close> or
  \<open>retry\<close>, whose \<open>workflowId\<close> and \<open>stepId\<close> are both the empty string is rejected with
  \<open>goto_missing_target\<close>, respectively \<open>goto_retry_missing_target\<close>. When both are present
  and exactly one of them is the empty string, no exclusive-target error is raised: a
  success action of type \<open>goto\<close> validates, and so does a failure action of type \<open>goto\<close>,
  and one of type \<open>retry\<close> that has a \<open>retryAfter\<close>.
\<close>

theorem C10_target_truthiness:
  "(SuccessAction_model env j = Ok a \<and> sa_type a = SA_GOTO \<and>
      sa_workflow_id a = Some [] \<and> sa_step_id a = Some [] \<longrightarrow>
      validate_SuccessAction env j = fail (Goto_missing_target ''goto'')) \<and>
   (FailureAction_model env j' = Ok b \<and> fa_type b \<in> {FA_GOTO, FA_RETRY} \<and>
      fa_workflow_id b = Some [] \<and> fa_step_id b = Some [] \<longrightarrow>
      validate_FailureAction env j' =
        fail (Goto_retry_missing_target (failure_action_type_value (fa_type b)))) \<and>
   (SuccessAction_model env j = Ok a \<and> sa_type a = SA_GOTO \<and>
      sa_workflow_id a = Some x \<and> sa_step_id a = Some y \<and> (x = []) \<noteq> (y = []) \<longrightarrow>
      validate_SuccessAction env j = Ok a) \<and>
   (FailureAction_model env j' = Ok b \<and> fa_type b \<in> {FA_GOTO, FA_RETRY} \<and>
      fa_workflow_id b = Some x \<and> fa_step_id b = Some y \<and> (x = []) \<noteq> (y = []) \<and>
      (fa_type b = FA_GOTO \<or> fa_retry_after b \<noteq> None) \<longrightarrow>
      validate_FailureAction env j' = Ok b)"
proof (intro conjI impI)
  assume "SuccessAction_model env j = Ok a \<and> sa_type a = SA_GOTO \<and>
      sa_workflow_id a = Some [] \<and> sa_step_id a = Some []"
  then show "validate_SuccessAction env j = fail (Goto_missing_target ''goto'')"
    by (simp add: validate_SuccessAction_eq check_conditional_goto_def truthy_def)
next
  assume "FailureAction_model env j' = Ok b \<and> fa_type b \<in> {FA_GOTO, FA_RETRY} \<and>
      fa_workflow_id b = Some [] \<and> fa_step_id b = Some []"
  then show "validate_FailureAction env j' =
        fail (Goto_retry_missing_target (failure_action_type_value (fa_type b)))"
    by (auto simp: validate_FailureAction_eq check_conditional_goto_retry_def truthy_def)
next
  assume "SuccessAction_model env j = Ok a \<and> sa_type a = SA_GOTO \<and>
      sa_workflow_id a = Some x \<and> sa_step_id a = Some y \<and> (x = []) \<noteq> (y = [])"
  then show "validate_SuccessAction env j = Ok a"
    by (auto simp: validate_SuccessAction_eq check_conditional_goto_def truthy_def)
next
  assume "FailureAction_model env j' = Ok b \<and> fa_type b \<in> {FA_GOTO, FA_RETRY} \<and>
      fa_workflow_id b = Some x \<and> fa_step_id b = Some y \<and> (x = []) \<noteq> (y = []) \<and>
      (fa_type b = FA_GOTO \<or> fa_retry_after b \<noteq> None)"
  then show "validate_FailureAction env j' = Ok b"
    by (auto simp: validate_FailureAction_eq check_conditional_goto_retry_def truthy_def)
qed

theorem C10_target_truthiness_witness:
  "SuccessAction_model env0 success_goto_empty = Ok success_goto_empty_typed \<and>
   validate_SuccessAction env0 success_goto_empty = fail (Goto_missing_target ''goto'') \<and>
   FailureAction_model env0 failure_goto_empty = Ok failure_goto_empty_typed \<and>
   validate_FailureAction env0 failure_goto_empty = fail (Goto_retry_missing_target ''goto'') \<and>
   SuccessAction_model env0 success_goto_one_empty = Ok success_goto_one_empty_typed \<and>
   validate_SuccessAction env0 success_goto_one_empty = Ok success_goto_one_empty_typed \<and>
   FailureAction_model env0 failure_retry_one_empty = Ok failure_retry_one_empty_typed \<and>
   validate_FailureAction env0 failure_retry_one_empty = Ok failure_retry_one_empty_typed"
proof -
  have 1: "SuccessAction_model env0 success_goto_empty = Ok success_goto_empty_typed"
    by code_simp
  have 2: "FailureAction_model env0 failure_goto_empty = Ok failure_goto_empty_typed"
    by code_simp
  have 3: "SuccessAction_model env0 success_goto_one_empty = Ok success_goto_one_empty_typed"
    by code_simp
  have 4: "FailureAction_model env0 failure_retry_one_empty = Ok failure_retry_one_empty_typed"
    by code_simp
  note C = C10_target_truthiness
  have 5: "validate_SuccessAction env0 success_goto_empty = fail (Goto_missing_target ''goto'')"
    using 1 C[of env0 success_goto_empty success_goto_empty_typed]
    by (simp add: success_goto_empty_typed_def)
  have 6: "validate_FailureAction env0 failure_goto_empty = fail (Goto_retry_missing_target ''goto'')"
    using 2 C[of env0 _ _ failure_goto_empty failure_goto_empty_typed]
    by (simp add: failure_goto_empty_typed_def)
  have 7: "validate_SuccessAction env0 success_goto_one_empty = Ok success_goto_one_empty_typed"
    using 3 C[of env0 success_goto_one_empty success_goto_one_empty_typed _ _ "''other''" "[]"]
    by (simp add: success_goto_one_empty_typed_def)
  have 8: "validate_FailureAction env0 failure_retry_one_empty = Ok failure_retry_one_empty_typed"
    using 4 C[of env0 _ _ failure_retry_one_empty failure_retry_one_empty_typed "[]" "''s1''"]
    by (simp add: failure_retry_one_empty_typed_def)
  show ?thesis
    using 1 2 3 4 5 6 7 8 by simp
qed

text \<open>
  C10 as stated fails: a failure action of type \<open>retry\<close> with a \<open>workflowId\<close>, an empty
  \<open>stepId\<close> and no \<open>retryAfter\<close> does not validate.
\<close>

theorem C10_counterexample:
  "FailureAction_model env0 action_retry_empty_step = Ok action_retry_empty_step_typed \<and>
   fa_type action_retry_empty_step_typed = FA_RETRY \<and>
   fa_workflow_id action_retry_empty_step_typed = Some ''other'' \<and>
   fa_step_id action_retry_empty_step_typed = Some [] \<and>
   validate_FailureAction env0 action_retry_empty_step =
     Invalid [VErr (Retry_missing_retry_after ''retry'') []]"
  by code_simp

subsection \<open>C8: a document without the version of its info\<close>

lemma map_of_filter_key:
  "map_of (filter (\<lambda>(k', v). k' \<noteq> k) kvs) a = (if a = k then None else map_of kvs a)"
  by (induction kvs) auto

lemma lookup_field_without_key:
  "a \<noteq> k \<Longrightarrow> n \<noteq> k \<Longrightarrow>
   lookup_field a n (filter (\<lambda>(k', v). k' \<noteq> k) kvs) = lookup_field a n kvs"
  by (simp add: lookup_field_def map_of_filter_key split: option.splits)

lemma lookup_field_without_key_same:
  "lookup_field k k (filter (\<lambda>(k', v). k' \<noteq> k) kvs) = None"
  by (simp add: lookup_field_def map_of_filter_key)

lemma map_of_map_at_key:
  "map_of (map (\<lambda>(k', v). if k' = k then (k', f v) else (k', v)) kvs) a =
     (if a = k then map_option f (map_of kvs a) else map_of kvs a)"
  by (induction kvs) auto

lemma lookup_field_map_other:
  "a \<noteq> k \<Longrightarrow> n \<noteq> k \<Longrightarrow>
   lookup_field a n (map (\<lambda>(k', v). if k' = k then (k', f v) else (k', v)) kvs) =
     lookup_field a n kvs"
  by (simp add: lookup_field_def map_of_map_at_key split: option.splits)

lemma lookup_field_map_same:
  "lookup_field k k (map (\<lambda>(k', v). if k' = k then (k', f v) else (k', v)) kvs) =
     map_option (\<lambda>(k', v). (k', f v)) (lookup_field k k kvs)"
  by (simp add: lookup_field_def map_of_map_at_key split: option.splits)

lemma validate_Info_without_version:
  assumes "validate_Info v = Ok x"
  shows "validate_Info (without_key ''version'' v) = Invalid [VErr Missing [Key ''version'']]"
proof -
  from assms obtain kvs t s d where v: "v = JObj kvs"
    and t: "required ''title'' ''title'' str_v kvs = Ok t"
    and s: "optional ''summary'' ''summary'' (nullable str_v) None kvs = Ok s"
    and d: "optional ''description'' ''description'' (nullable str_v) None kvs = Ok d"
    by (auto simp: validate_Info_def model_v_Ok_iff ap_Ok_iff)
  let ?kvs = "filter (\<lambda>(k', v). k' \<noteq> ''version'') kvs"
  have t': "required ''title'' ''title'' str_v ?kvs = Ok t"
    using t by (simp add: required_def lookup_field_without_key)
  have s': "optional ''summary'' ''summary'' (nullable str_v) None ?kvs = Ok s"
    using s by (simp add: optional_def lookup_field_without_key)
  have d': "optional ''description'' ''description'' (nullable str_v) None ?kvs = Ok d"
    using d by (simp add: optional_def lookup_field_without_key)
  have m: "required ''version'' ''version'' str_v ?kvs = Invalid [VErr Missing [Key ''version'']]"
    by (simp add: required_def lookup_field_without_key_same)
  show ?thesis
    unfolding v without_key.simps validate_Info_def model_v.simps
    by (simp only: t' s' d' m ap.simps)
qed

text \<open>
  C8. A document that validates, with the key \<open>version\<close> taken out of its \<open>info\<close> mapping, is
  rejected with exactly one error, of kind \<open>missing\<close>, at \<open>info.version\<close>.
\<close>

theorem C8_missing_info_version:
  "validate_arazzo_data env data = Ok d \<longrightarrow>
   validate_arazzo_data env (without_info_version data) =
     Invalid [VErr Missing [Key ''info'', Key ''version'']]"
proof
  assume ok: "validate_arazzo_data env data = Ok d"
  then obtain kvs a i sds ws co where data: "data = JObj kvs"
    and a: "required ''arazzo'' ''arazzo'' (then_v str_v (pattern matches_arazzo_version)) kvs = Ok a"
    and i: "required ''info'' ''info'' validate_Info kvs = Ok i"
    and sds: "required ''sourceDescriptions'' ''source_descriptions''
          (then_v (list_v validate_SourceDescription 1)
             (validate_source_descriptions_uniqueness env)) kvs = Ok sds"
    and ws: "required ''workflows'' ''workflows''
          (then_v (list_v (validate_Workflow env) 1) (validate_workflows_uniqueness env)) kvs = Ok ws"
    and co: "optional ''components'' ''components'' (nullable (validate_Components env)) None kvs = Ok co"
    by (auto simp: validate_arazzo_data_def validate_ArazzoSpecification_def model_v_Ok_iff ap_Ok_iff)
  let ?kvs = "map (\<lambda>(k, v). if k = ''info'' then (k, without_key ''version'' v) else (k, v)) kvs"
  have a': "required ''arazzo'' ''arazzo'' (then_v str_v (pattern matches_arazzo_version)) ?kvs = Ok a"
    using a by (simp add: required_def lookup_field_map_other)
  have sds': "required ''sourceDescriptions'' ''source_descriptions''
          (then_v (list_v validate_SourceDescription 1)
             (validate_source_descriptions_uniqueness env)) ?kvs = Ok sds"
    using sds by (simp add: required_def lookup_field_map_other)
  have ws': "required ''workflows'' ''workflows''
          (then_v (list_v (validate_Workflow env) 1) (validate_workflows_uniqueness env)) ?kvs = Ok ws"
    using ws by (simp add: required_def lookup_field_map_other)
  have co': "optional ''components'' ''components'' (nullable (validate_Components env)) None ?kvs = Ok co"
    using co by (simp add: optional_def lookup_field_map_other)
  from i obtain k v where l: "lookup_field ''info'' ''info'' kvs = Some (k, v)"
    and vi: "validate_Info v = Ok i"
    by (auto simp: required_Ok_iff)
  from l have k: "k = ''info''"
    by (auto simp: lookup_field_def split: option.splits)
  have i': "required ''info'' ''info'' validate_Info ?kvs =
      Invalid [VErr Missing [Key ''info'', Key ''version'']]"
    using l k validate_Info_without_version[OF vi]
    by (simp add: required_def lookup_field_map_same outer_def)
  show "validate_arazzo_data env (without_info_version data) =
     Invalid [VErr Missing [Key ''info'', Key ''version'']]"
    unfolding data without_info_version.simps validate_arazzo_data_def
      validate_ArazzoSpecification_def model_v.simps
    by (simp only: a' i' sds' ws' co' ap.simps)
qed

theorem C8_missing_info_version_witness:
  "validate_arazzo_data env0 doc_good = Ok doc_good_typed \<and>
   without_info_version doc_good =
     JObj [(''arazzo'', JStr ''1.0.0''), (''info'', JObj [(''title'', JStr ''Pets'')]),
       (''sourceDescriptions'', JList [JObj [(''name'', JStr ''petstore''),
          (''url'', JStr ''https://petstore.example/openapi.json''), (''type'', JStr ''openapi'')]]),
       (''workflows'', JList [JObj [(''workflowId'', JStr ''getPet''), (''steps'', JList [step_good])]]),
       (''x-custom-extension'', JStr ''some-value'')] \<and>
   validate_arazzo_data env0 (without_info_version doc_good) =
     Invalid [VErr Missing [Key ''info'', Key ''version'']]"
proof -
  have 1: "validate_arazzo_data env0 doc_good = Ok doc_good_typed"
    by code_simp
  have 2: "without_info_version doc_good =
     JObj [(''arazzo'', JStr ''1.0.0''), (''info'', JObj [(''title'', JStr ''Pets'')]),
       (''sourceDescriptions'', JList [JObj [(''name'', JStr ''petstore''),
          (''url'', JStr ''https://petstore.example/openapi.json''), (''type'', JStr ''openapi'')]]),
       (''workflows'', JList [JObj [(''workflowId'', JStr ''getPet''), (''steps'', JList [step_good])]]),
       (''x-custom-extension'', JStr ''some-value'')]"
    by (simp add: doc_good_def example_doc_def)
  show ?thesis
    using 1 2 C8_missing_info_version[of env0 doc_good doc_good_typed] by simp
qed

subsection \<open>C5, C6, C7: minimum lengths, patterns and uniqueness\<close>

lemma doc_source_descriptions_unique:
  "validate_arazzo_data env data = Ok d \<Longrightarrow> distinct (map sd_name (doc_source_descriptions d))"
  by (auto dest: validated_doc_valid simp: doc_valid_def)

lemma doc_workflows_unique:
  "validate_arazzo_data env data = Ok d \<Longrightarrow> distinct (map wf_workflow_id (doc_workflows d))"
  by (auto dest: validated_doc_valid simp: doc_valid_def)

lemma doc_steps_unique:
  "validate_arazzo_data env data = Ok d \<Longrightarrow> w \<in> set (doc_workflows d) \<Longrightarrow>
   distinct (map step_id (wf_steps w))"
  by (auto dest: validated_doc_valid simp: doc_valid_def workflow_valid_def list_all_iff)

lemma doc_step_lists_unique:
  assumes "validate_arazzo_data env data = Ok d" and "s \<in> set (doc_steps d)"
  shows "unique_list (step_parameters s) \<and> unique_list (step_success_criteria s) \<and>
         unique_list (step_on_success s) \<and> unique_list (step_on_failure s)"
proof -
  have "step_valid s"
    using assms validated_doc_valid doc_steps_valid by blast
  then show ?thesis
    by (auto simp: step_valid_def criteria_valid_def success_actions_valid_def
        failure_actions_valid_def unique_list_def split: option.splits)
qed

lemma set_collect_duplicates:
  "set (collect_duplicates seen xs) = {x \<in> set xs. x \<in> seen \<or> 1 < count_list xs x}"
proof (induction xs arbitrary: seen)
  case Nil
  then show ?case by simp
next
  case (Cons a xs)
  have c: "0 < count_list xs a \<longleftrightarrow> a \<in> set xs"
    using count_list_0_iff[of xs a] by auto
  show ?case
  proof (cases "a \<in> seen")
    case True
    with Cons.IH[of seen] show ?thesis
      by auto
  next
    case False
    with Cons.IH[of "insert a seen"] c show ?thesis
      by auto
  qed
qed

lemma unique_ids_lists_duplicates:
  assumes "\<not> distinct (map ident v)" and "\<forall>xs. set (set_order env xs) = set xs"
  shows "\<exists>ids. unique_ids env field_name ident v = fail (Value_error (Unique_ids field_name ids)) \<and>
           set ids = {i. 1 < count_list (map ident v) i}"
proof -
  let ?ids = "set_order env (remdups (collect_duplicates {} (map ident v)))"
  have "unique_ids env field_name ident v = fail (Value_error (Unique_ids field_name ?ids))"
    using assms(1) unfolding unique_ids_def Let_def length_card_iff by simp
  moreover have "\<And>i. 1 < count_list (map ident v) i \<Longrightarrow> i \<in> set (map ident v)"
    by (metis count_list_0_iff not_less_zero)
  then have "set ?ids = {i. 1 < count_list (map ident v) i}"
    using assms(2) by (auto simp: set_collect_duplicates)
  ultimately show ?thesis by blast
qed

lemma doc_min_lengths:
  assumes "validate_arazzo_data env data = Ok d"
  shows "1 \<le> length (doc_source_descriptions d)"
    and "1 \<le> length (doc_workflows d)"
    and "\<forall>w\<in>set (doc_workflows d). 1 \<le> length (wf_steps w)"
    and "\<forall>s\<in>set (doc_steps d). step_success_criteria s \<noteq> Some []"
    and "\<forall>a\<in>set (doc_success_actions d). sa_criteria a \<noteq> Some []"
proof -
  have v: "doc_valid d"
    using assms by (rule validated_doc_valid)
  then show "1 \<le> length (doc_source_descriptions d)" and "1 \<le> length (doc_workflows d)"
    and "\<forall>w\<in>set (doc_workflows d). 1 \<le> length (wf_steps w)"
    by (auto simp: doc_valid_def workflow_valid_def list_all_iff)
  show "\<forall>s\<in>set (doc_steps d). step_success_criteria s \<noteq> Some []"
  proof
    fix s assume "s \<in> set (doc_steps d)"
    then have "criteria_valid 1 (step_success_criteria s)"
      using doc_steps_valid[OF v] by (simp add: step_valid_def)
    then show "step_success_criteria s \<noteq> Some []"
      by (auto simp: criteria_valid_def)
  qed
  show "\<forall>a\<in>set (doc_success_actions d). sa_criteria a \<noteq> Some []"
  proof
    fix a assume "a \<in> set (doc_success_actions d)"
    then have "criteria_valid 1 (sa_criteria a)"
      using doc_success_actions_valid[OF v] by (simp add: success_action_valid_def)
    then show "sa_criteria a \<noteq> Some []"
      by (auto simp: criteria_valid_def)
  qed
qed

lemma search_space_ascii:
  "c \<in> set v \<Longrightarrow> c \<in> set [CHR '' '', CHR 0x09, CHR 0x0A, CHR 0x0D] \<Longrightarrow> search_space (map of_char v)"
  by (induction v) auto

lemma url_with_whitespace_rejected:
  assumes "lookup_field ''url'' ''url'' kvs = Some (k, JStr v)"
    and "search_space (map of_char v)"
  shows "rejects (validate_SourceDescription (JObj kvs)) {VErr (Value_error Url_whitespace) [Key k]}"
proof -
  have "then_v str_v validate_uri_reference (JStr v) = fail (Value_error Url_whitespace)"
    using assms(2) by (simp add: then_v_def validate_uri_reference_def)
  then have "rejects (then_v str_v validate_uri_reference (JStr v)) {VErr (Value_error Url_whitespace) []}"
    by (simp add: rejects_fail)
  then have "rejects (required ''url'' ''url'' (then_v str_v validate_uri_reference) kvs)
      (outer (Key k) ` {VErr (Value_error Url_whitespace) []})"
    by (rule rejects_required[OF assms(1)])
  then show ?thesis
    unfolding validate_SourceDescription_def model_v.simps
    by (auto simp: outer_def intro: rejects_ap1 rejects_ap2)
qed

lemma name_pattern_mismatch:
  assumes "lookup_field ''name'' ''name'' kvs = Some (k, JStr v)"
    and "c \<in> set v" and "\<not> name_char c"
  shows "rejects (validate_SourceDescription (JObj kvs)) {VErr String_pattern_mismatch [Key k]}"
proof -
  have "\<not> matches_name v"
    using assms(2,3) by (auto simp: matches_name_def list_all_iff)
  then have "then_v str_v (pattern matches_name) (JStr v) = fail String_pattern_mismatch"
    by (simp add: then_v_def pattern_def)
  then have "rejects (then_v str_v (pattern matches_name) (JStr v)) {VErr String_pattern_mismatch []}"
    by (simp add: rejects_fail)
  then have "rejects (required ''name'' ''name'' (then_v str_v (pattern matches_name)) kvs)
      (outer (Key k) ` {VErr String_pattern_mismatch []})"
    by (rule rejects_required[OF assms(1)])
  then show ?thesis
    unfolding validate_SourceDescription_def model_v.simps
    by (auto simp: outer_def intro: rejects_ap1 rejects_ap2)
qed

text \<open>
  C5 at a failure action with \<open>criteria: []\<close>. The field \<open>FailureAction.criteria\<close> is
  declared without the \<open>min_length=1\<close> that \<open>SuccessAction.criteria\<close> has: the document
  validates, with a failure action whose list of criteria is empty, where the same list on
  a success action is rejected as too short.
\<close>

theorem C5_failure_action_empty_criteria:
  "validate_arazzo_data env0 (example_doc ''petstore'' [step_empty_criteria]) =
     Ok doc_empty_criteria_typed \<and>
   map fa_criteria (doc_failure_actions doc_empty_criteria_typed) = [Some []] \<and>
   validate_SuccessAction env0 success_action_empty_criteria =
     Invalid [VErr Too_short [Key ''criteria'']]"
  by code_simp

text \<open>
  C6 at a source description whose name is \<open>a\<close>, a backslash, \<open>b\<close>. The name has a character that is no letter,
  digit, underscore or hyphen, and the document validates: in the pattern of the source,
  the hyphen of the character class is preceded by an escaped backslash.
\<close>

theorem C6_name_with_backslash:
  "validate_arazzo_data env0 (example_doc name_with_backslash [step_good]) =
     Ok (ArazzoSpecification (doc_arazzo doc_good_typed) (doc_info doc_good_typed)
       [SourceDescription name_with_backslash ''https://petstore.example/openapi.json''
          (Some OPENAPI) []]
       (doc_workflows doc_good_typed) (doc_components doc_good_typed) (doc_extra doc_good_typed)) \<and>
   name_with_backslash = [CHR ''a'', CHR 0x5C, CHR ''b'']"
  by code_simp

text \<open>
  C7 at a step with the same parameter twice. The duplicates are found, and the message that
  would list them is never built: \<open>set(duplicates_found)\<close> hashes a model, and a
  \<open>TypeError\<close> leaves \<open>validate_arazzo_data\<close> in place of the \<open>ValidationError\<close>.
\<close>

theorem C7_duplicate_parameters:
  "raw_step (example_doc ''petstore'' [step_duplicate_parameters]) 0 0 =
     Some ([Key ''workflows'', Idx 0, Key ''steps'', Idx 0],
       JObj [(''stepId'', JStr ''s1''), (''operationId'', JStr ''getPetById''),
         (''parameters'', JList [param_tagged, param_tagged])]) \<and>
   validate_arazzo_data env0 (example_doc ''petstore'' [step_duplicate_parameters]) =
     Raised (TypeError ''unhashable type'')"
  by code_simp

end
